theory Spec2Isabelle
  imports Complex_Main
begin

section \<open>Dental measurements manager (dentalMeasurementsManager)\<close>

text \<open>
  JavaScript values are modelled by typed HOL values. A number is a real, an infinity
  or \<^verbatim>\<open>NaN\<close>. A numeric property is \<^verbatim>\<open>undefined\<close>, \<^verbatim>\<open>null\<close> or a number, and
  \<^verbatim>\<open>!==\<close> on two such properties is \<open>strictNe\<close>: they differ, or they are both
  \<^verbatim>\<open>NaN\<close>. A string or object property that may be \<^verbatim>\<open>undefined\<close> or \<^verbatim>\<open>null\<close> is
  an \<open>option\<close>, \<open>None\<close> standing for both: the manager tests such a property for
  truthiness, reads it through \<^verbatim>\<open>?.\<close> or \<^verbatim>\<open>??\<close>, or compares it with a string, none
  of which tells the two apart. Strings are lists of code units.
\<close>

datatype number = Num real | PosInfinity | NegInfinity | NaN

datatype 'a property = Undefined | Null | Defined 'a

text \<open>The nullish coalescing operator \<^verbatim>\<open>a ?? b\<close> and \<^verbatim>\<open>a !== b\<close> on numeric properties.\<close>

definition coalesce :: "'a property \<Rightarrow> 'a property \<Rightarrow> 'a property" where
  "coalesce a b = (case a of Defined x \<Rightarrow> Defined x | _ \<Rightarrow> b)"

definition strictNe :: "number property \<Rightarrow> number property \<Rightarrow> bool" where
  "strictNe a b = (a \<noteq> b \<or> a = Defined NaN)"

datatype DentalNumberingSystem = FDI | UNIVERSAL

record DentalToothSelection =
  tooth_system :: DentalNumberingSystem
  tooth_value :: string

text \<open>The text a numbering system contributes inside a template literal.\<close>

fun systemText :: "DentalNumberingSystem \<Rightarrow> string" where
  "systemText FDI = ''FDI''"
| "systemText UNIVERSAL = ''UNIVERSAL''"

text \<open>
  Cached statistics and per-image data entries of a host measurement: only the
  properties that \<^verbatim>\<open>computeMeasurementValue\<close> reads.
\<close>

record CachedStats =
  stats_angle :: "number property"
  stats_mean :: "number property"
  stats_longestDiameter :: "number property"
  stats_length :: "number property"
  stats_maxDiameter :: "number property"

record DataEntry =
  entry_angle :: "number property"
  entry_length :: "number property"
  entry_value :: "number property"

text \<open>
  The metadata object of a measurement. A measurement without metadata behaves,
  on every path of the manager, like one whose metadata has no property set, so
  the field is not optional. Record update keeps all other fields, as the object
  spread \<^verbatim>\<open>{...metadata, k: v}\<close> does.
\<close>

record Metadata =
  dentalPresetId :: "string option"
  dentalPresetLabel :: "string option"
  dentalUnit :: "string option"
  dentalValue :: "number property"
  dentalCreatedAt :: "nat option"
  dentalTooth :: "DentalToothSelection option"
  meta_cachedStats :: "CachedStats option"
  meta_length :: "number property"

record Measurement =
  uid :: string
  label :: "string option"
  metadata :: Metadata
  data :: "DataEntry list option"
  cachedStats :: "CachedStats option"
  m_angle :: "number property"
  m_length :: "number property"

record DentalMeasurementPreset =
  preset_id :: string
  preset_label :: string
  toolName :: string
  unit :: string
  description :: string
  icon :: "string option"
  valueAccessor :: "(Measurement \<Rightarrow> number property) option"

text \<open>The degree sign U+00B0 as one code unit.\<close>

definition degreeSign :: string where
  "degreeSign = [char_of (176 :: nat)]"

definition DENTAL_MEASUREMENT_PRESETS :: "DentalMeasurementPreset list" where
  "DENTAL_MEASUREMENT_PRESETS =
    [ \<lparr> preset_id = ''periapical-length'', preset_label = ''PA length'',
        toolName = ''Length'', unit = ''mm'',
        description = ''Standard periapical length measurement.'',
        icon = None, valueAccessor = None \<rparr>,
      \<lparr> preset_id = ''canal-angle'', preset_label = ''Canal angle'',
        toolName = ''Angle'', unit = degreeSign,
        description = ''Measure the canal angulation in degrees.'',
        icon = None, valueAccessor = None \<rparr>,
      \<lparr> preset_id = ''crown-width'', preset_label = ''Crown width'',
        toolName = ''Length'', unit = ''mm'',
        description = ''Buccolingual crown width measurement.'',
        icon = None, valueAccessor = None \<rparr>,
      \<lparr> preset_id = ''root-length'', preset_label = ''Root length'',
        toolName = ''Length'', unit = ''mm'',
        description = ''Root apex to CEJ linear measurement.'',
        icon = None, valueAccessor = None \<rparr> ]"

subsection \<open>Module state and host effects\<close>

text \<open>
  The integration context keeps what the manager later asks of it: whether the
  services manager offers a measurement service, whether a commands manager was
  given, and the tool group ids.
\<close>

record IntegrationContext =
  measurementService :: bool
  commandsManager :: bool
  toolGroupIds :: "string list"

datatype MeasurementEvent = MEASUREMENT_ADDED | MEASUREMENT_UPDATED | MEASUREMENTS_CLEARED

text \<open>
  A subscription is identified by its event and by the listener id of the
  initialization that made it (the id its cleared-handler closes over).
\<close>

record Subscription =
  sub_event :: MeasurementEvent
  sub_listener :: string

text \<open>The module-level variables.\<close>

record ManagerState =
  integration :: "IntegrationContext option"
  activePresetId :: "string option"
  activeTooth :: "DentalToothSelection option"
  subscriptions :: "Subscription list"
  lastInitializationId :: "string option"

text \<open>Calls the manager makes on the host, in the order it makes them.\<close>

datatype Effect =
    MeasurementUpdate string Measurement
  | RunCommand string string "string list" string
  | Subscribe Subscription
  | Unsubscribe Subscription

definition getMeasurementService :: "ManagerState \<Rightarrow> bool" where
  "getMeasurementService s =
     (case integration s of None \<Rightarrow> False | Some i \<Rightarrow> measurementService i)"

text \<open>Truthiness of an optional string: absent and empty strings are falsy.\<close>

definition truthy :: "string option \<Rightarrow> bool" where
  "truthy v = (case v of None \<Rightarrow> False | Some t \<Rightarrow> t \<noteq> [])"

definition measurementHasDentalMetadata :: "Measurement \<Rightarrow> bool" where
  "measurementHasDentalMetadata m =
     (truthy (dentalPresetId (metadata m)) \<or> truthy (dentalPresetLabel (metadata m)))"

text \<open>The nullish coalescing operator on optional strings and objects.\<close>

definition nullish :: "'a option \<Rightarrow> 'a option \<Rightarrow> 'a option" where
  "nullish a b = (case a of Some x \<Rightarrow> Some x | None \<Rightarrow> b)"

definition angleLike :: "DentalMeasurementPreset \<Rightarrow> bool" where
  "angleLike preset = (toolName preset = ''Angle'' \<or> unit preset = degreeSign)"

text \<open>\<^verbatim>\<open>stats?.field\<close>: a property of the statistics, undefined when there are none.\<close>

definition statsField ::
  "CachedStats option \<Rightarrow> (CachedStats \<Rightarrow> number property) \<Rightarrow> number property" where
  "statsField stats field = (case stats of None \<Rightarrow> Undefined | Some st \<Rightarrow> field st)"

text \<open>
  \<^verbatim>\<open>computeMeasurementValue\<close>. The data object is the list of its values in
  property order; an entry that is itself nullish reads like one with no property.
\<close>

definition computeMeasurementValue ::
  "DentalMeasurementPreset \<Rightarrow> Measurement option \<Rightarrow> number property" where
  "computeMeasurementValue preset measurement =
     (case measurement of
        None \<Rightarrow> Undefined
      | Some m \<Rightarrow>
          (case valueAccessor preset of
             Some accessor \<Rightarrow> accessor m
           | None \<Rightarrow>
               (case data m of
                  Some (dataEntry # rest) \<Rightarrow>
                    (if angleLike preset
                     then coalesce (entry_angle dataEntry) (entry_value dataEntry)
                     else coalesce (entry_length dataEntry) (entry_value dataEntry))
                | _ \<Rightarrow>
                    (let stats = (case cachedStats m of
                                    Some st \<Rightarrow> Some st
                                  | None \<Rightarrow> meta_cachedStats (metadata m))
                     in if angleLike preset
                        then coalesce (m_angle m)
                               (coalesce (statsField stats stats_angle)
                                         (statsField stats stats_mean))
                        else coalesce (m_length m)
                               (coalesce (statsField stats stats_longestDiameter)
                                 (coalesce (statsField stats stats_length)
                                   (coalesce (statsField stats stats_maxDiameter)
                                             (meta_length (metadata m)))))))))"

text \<open>
  \<^verbatim>\<open>metadataChanged\<close>. The three string keys are compared as optional strings: the
  next metadata, which \<^verbatim>\<open>applyDentalMetadata\<close> builds, holds a string under each of
  them. The value is compared as \<^verbatim>\<open>!==\<close> compares numeric properties.
\<close>

definition metadataChanged :: "Metadata \<Rightarrow> Metadata \<Rightarrow> bool" where
  "metadataChanged currentMetadata nextMetadata =
     (if dentalPresetId currentMetadata \<noteq> dentalPresetId nextMetadata then True
      else if dentalPresetLabel currentMetadata \<noteq> dentalPresetLabel nextMetadata then True
      else if dentalUnit currentMetadata \<noteq> dentalUnit nextMetadata then True
      else if strictNe (dentalValue currentMetadata) (dentalValue nextMetadata) then True
      else
        (let currentTooth = dentalTooth currentMetadata;
             nextTooth = dentalTooth nextMetadata
         in if map_option tooth_system currentTooth \<noteq> map_option tooth_system nextTooth
               \<or> map_option tooth_value currentTooth \<noteq> map_option tooth_value nextTooth
            then True
            else False))"

text \<open>
  The three values \<^verbatim>\<open>applyDentalMetadata\<close> computes before it decides whether
  to call the host: the preset to apply, the next metadata and the label.
  \<open>now\<close> is the value of \<^verbatim>\<open>Date.now()\<close>.
\<close>

definition presetToApply ::
  "ManagerState \<Rightarrow> Measurement \<Rightarrow> DentalMeasurementPreset option
     \<Rightarrow> DentalMeasurementPreset option" where
  "presetToApply s m preset =
     (case preset of
        Some p \<Rightarrow> Some p
      | None \<Rightarrow>
          List.find
            (\<lambda>p. let presetId = dentalPresetId (metadata m)
                 in if truthy presetId then Some (preset_id p) = presetId
                    else Some (preset_id p) = activePresetId s)
            DENTAL_MEASUREMENT_PRESETS)"

definition nextMetadataOf ::
  "nat \<Rightarrow> ManagerState \<Rightarrow> DentalMeasurementPreset \<Rightarrow> Measurement \<Rightarrow> Metadata" where
  "nextMetadataOf now s p m =
     (let nextMetadata = (metadata m)
            \<lparr> dentalPresetId := Some (preset_id p),
              dentalPresetLabel := Some (preset_label p),
              dentalUnit := Some (unit p),
              dentalValue := computeMeasurementValue p (Some m),
              dentalCreatedAt := nullish (dentalCreatedAt (metadata m)) (Some now) \<rparr>
      in if dentalTooth nextMetadata = None \<and> activeTooth s \<noteq> None
         then nextMetadata \<lparr> dentalTooth := activeTooth s \<rparr>
         else nextMetadata)"

definition labelSuffixOf :: "DentalMeasurementPreset \<Rightarrow> Metadata \<Rightarrow> string" where
  "labelSuffixOf p nextMetadata =
     (case dentalTooth nextMetadata of
        Some t \<Rightarrow> preset_label p @ '' ('' @ systemText (tooth_system t) @ '' ''
                    @ tooth_value t @ '')''
      | None \<Rightarrow> preset_label p)"

definition applyDentalMetadata ::
  "nat \<Rightarrow> ManagerState \<Rightarrow> Measurement option \<Rightarrow> DentalMeasurementPreset option
     \<Rightarrow> Effect list" where
  "applyDentalMetadata now s measurement preset =
     (case measurement of
        None \<Rightarrow> []
      | Some m \<Rightarrow>
          if \<not> getMeasurementService s then []
          else
            (case presetToApply s m preset of
               None \<Rightarrow> []
             | Some p \<Rightarrow>
                 (let nextMetadata = nextMetadataOf now s p m;
                      labelSuffix = labelSuffixOf p nextMetadata
                  in if \<not> metadataChanged (metadata m) nextMetadata
                        \<and> label m = Some labelSuffix
                     then []
                     else [MeasurementUpdate (uid m)
                             (m \<lparr> label := Some labelSuffix,
                                  metadata := nextMetadata \<rparr>)])))"

definition findPreset :: "string option \<Rightarrow> DentalMeasurementPreset option" where
  "findPreset presetId =
     List.find (\<lambda>p. Some (preset_id p) = presetId) DENTAL_MEASUREMENT_PRESETS"

definition handleMeasurementAdded ::
  "nat \<Rightarrow> ManagerState \<Rightarrow> Measurement option \<Rightarrow> Effect list" where
  "handleMeasurementAdded now s measurement =
     (case measurement of
        None \<Rightarrow> []
      | Some m \<Rightarrow>
          if truthy (activePresetId s)
          then applyDentalMetadata now s (Some m) (findPreset (activePresetId s))
          else if measurementHasDentalMetadata m
          then applyDentalMetadata now s (Some m) None
          else [])"

text \<open>
  \<^verbatim>\<open>handleMeasurementUpdated\<close>; a missing measurement has no dental metadata.
\<close>

definition handleMeasurementUpdated ::
  "nat \<Rightarrow> ManagerState \<Rightarrow> Measurement option \<Rightarrow> Effect list" where
  "handleMeasurementUpdated now s measurement =
     (case measurement of
        None \<Rightarrow> []
      | Some m \<Rightarrow>
          if \<not> measurementHasDentalMetadata m then []
          else applyDentalMetadata now s (Some m)
                 (findPreset (dentalPresetId (metadata m))))"

text \<open>
  The exchange with the host that the specification describes: the measurement service
  answers an update by a measurement-updated notification for the updated measurement,
  which the handler may answer by an update again. \<open>exchange k\<close> lists the updates of
  the first \<open>k\<close> rounds, starting from a notification for \<open>m\<close>.
\<close>

primrec exchange :: "nat \<Rightarrow> nat \<Rightarrow> ManagerState \<Rightarrow> Measurement \<Rightarrow> Effect list" where
  "exchange 0 now s m = []"
| "exchange (Suc k) now s m =
     (case handleMeasurementUpdated now s (Some m) of
        MeasurementUpdate u m' # rest \<Rightarrow> MeasurementUpdate u m' # exchange k now s m'
      | _ \<Rightarrow> [])"

definition clearSubscriptions :: "ManagerState \<Rightarrow> ManagerState \<times> Effect list" where
  "clearSubscriptions s =
     (s \<lparr> subscriptions := [] \<rparr>, map Unsubscribe (subscriptions s))"

text \<open>
  \<^verbatim>\<open>initializeDentalMeasurements\<close>. \<open>uuid\<close> is the value of \<^verbatim>\<open>uuidv4()\<close>; the
  argument says which of its services are present.
\<close>

definition listenerId :: "string \<Rightarrow> string" where
  "listenerId uuid = ''dental-measurements-'' @ uuid"

definition initializeDentalMeasurements ::
  "string \<Rightarrow> IntegrationContext \<Rightarrow> ManagerState \<Rightarrow> ManagerState \<times> Effect list" where
  "initializeDentalMeasurements uuid args s =
     (if \<not> measurementService args \<or> \<not> commandsManager args then (s, [])
      else
        (let s1 = s \<lparr> integration := Some args \<rparr>;
             (s2, unsubscribed) = clearSubscriptions s1;
             uniqueListenerId = listenerId uuid;
             s3 = s2 \<lparr> lastInitializationId := Some uniqueListenerId \<rparr>;
             addedSubscription =
               \<lparr> sub_event = MEASUREMENT_ADDED, sub_listener = uniqueListenerId \<rparr>;
             updatedSubscription =
               \<lparr> sub_event = MEASUREMENT_UPDATED, sub_listener = uniqueListenerId \<rparr>;
             clearedSubscription =
               \<lparr> sub_event = MEASUREMENTS_CLEARED, sub_listener = uniqueListenerId \<rparr>
         in (s3 \<lparr> subscriptions :=
                     [addedSubscription, updatedSubscription, clearedSubscription] \<rparr>,
             unsubscribed @ [Subscribe addedSubscription, Subscribe updatedSubscription,
                             Subscribe clearedSubscription])))"

text \<open>
  The handler that an initialization subscribes to \<^verbatim>\<open>MEASUREMENTS_CLEARED\<close>; it
  closes over that initialization's listener id.
\<close>

definition measurementsClearedHandler :: "string \<Rightarrow> ManagerState \<Rightarrow> ManagerState" where
  "measurementsClearedHandler uniqueListenerId s =
     (if lastInitializationId s \<noteq> Some uniqueListenerId then s
      else s \<lparr> activePresetId := None \<rparr>)"

definition teardownDentalMeasurements :: "ManagerState \<Rightarrow> ManagerState \<times> Effect list" where
  "teardownDentalMeasurements s =
     (let (s1, unsubscribed) = clearSubscriptions s
      in (s1 \<lparr> integration := None, activePresetId := None \<rparr>, unsubscribed))"

definition selectDentalMeasurementPreset ::
  "string \<Rightarrow> ManagerState \<Rightarrow> ManagerState \<times> Effect list" where
  "selectDentalMeasurementPreset presetId s =
     (let s1 = s \<lparr> activePresetId := Some presetId \<rparr>
      in case (findPreset (Some presetId), integration s1) of
           (Some preset, Some i) \<Rightarrow>
             (s1, [RunCommand ''setToolActive'' (toolName preset) (toolGroupIds i)
                     ''CORNERSTONE''])
         | _ \<Rightarrow> (s1, []))"

definition getActiveDentalPresetId :: "ManagerState \<Rightarrow> string option" where
  "getActiveDentalPresetId s = activePresetId s"

definition setActiveDentalTooth ::
  "DentalToothSelection option \<Rightarrow> ManagerState \<Rightarrow> ManagerState" where
  "setActiveDentalTooth selection s = s \<lparr> activeTooth := selection \<rparr>"

definition getActiveDentalTooth :: "ManagerState \<Rightarrow> DentalToothSelection option" where
  "getActiveDentalTooth s = activeTooth s"

subsection \<open>Re-scan of existing measurements\<close>

text \<open>
  The regular expressions of the re-scan are literal texts matched without regard
  to ASCII case, and \<^verbatim>\<open>\d+\<close> followed by a closing parenthesis.
\<close>

definition lowerAscii :: "char \<Rightarrow> char" where
  "lowerAscii c =
     (case map_of (zip ''ABCDEFGHIJKLMNOPQRSTUVWXYZ'' ''abcdefghijklmnopqrstuvwxyz'') c of
        Some l \<Rightarrow> l
      | None \<Rightarrow> c)"

definition startsWithCI :: "string \<Rightarrow> string \<Rightarrow> bool" where
  "startsWithCI pat t = (map lowerAscii (take (length pat) t) = map lowerAscii pat)"

text \<open>\<^verbatim>\<open>/pat/i.test(t)\<close> for a literal \<open>pat\<close>.\<close>

fun regexTestCI :: "string \<Rightarrow> string \<Rightarrow> bool" where
  "regexTestCI pat [] = startsWithCI pat []"
| "regexTestCI pat (c # cs) = (startsWithCI pat (c # cs) \<or> regexTestCI pat cs)"

definition isDigit :: "char \<Rightarrow> bool" where
  "isDigit c = (c \<in> set ''0123456789'')"

text \<open>
  \<^verbatim>\<open>t.match(/\(TAG (\d+)\)/i)\<close>: the leftmost place where the literal opening
  (parenthesis, tag, space) is followed by digits and a closing parenthesis; the
  result is the captured digits.
\<close>

definition matchToothHere :: "string \<Rightarrow> string \<Rightarrow> string option" where
  "matchToothHere opening t =
     (if startsWithCI opening t
      then (let rest = drop (length opening) t;
                digits = takeWhile isDigit rest;
                after = dropWhile isDigit rest
            in if digits \<noteq> [] \<and> take 1 after = '')'' then Some digits else None)
      else None)"

fun matchTooth :: "string \<Rightarrow> string \<Rightarrow> string option" where
  "matchTooth opening [] = matchToothHere opening []"
| "matchTooth opening (c # cs) =
     (case matchToothHere opening (c # cs) of
        Some digits \<Rightarrow> Some digits
      | None \<Rightarrow> matchTooth opening cs)"

text \<open>The body of the \<^verbatim>\<open>forEach\<close> of \<^verbatim>\<open>enhanceExistingMeasurements\<close>.\<close>

definition enhanceMeasurement :: "nat \<Rightarrow> Measurement \<Rightarrow> Effect list" where
  "enhanceMeasurement now m =
     (if measurementHasDentalMetadata m then []
      else
        (let lbl = (case label m of Some l \<Rightarrow> l | None \<Rightarrow> []);
             matchedPreset =
               (if regexTestCI ''PA length'' lbl then findPreset (Some ''periapical-length'')
                else if regexTestCI ''Canal angle'' lbl then findPreset (Some ''canal-angle'')
                else if regexTestCI ''Crown width'' lbl then findPreset (Some ''crown-width'')
                else if regexTestCI ''Root length'' lbl then findPreset (Some ''root-length'')
                else None)
         in case matchedPreset of
              None \<Rightarrow> []
            | Some p \<Rightarrow>
                (let toothInfo =
                       (case matchTooth ''(FDI '' lbl of
                          Some v \<Rightarrow> Some \<lparr> tooth_system = FDI, tooth_value = v \<rparr>
                        | None \<Rightarrow>
                            (case matchTooth ''(Universal '' lbl of
                               Some v \<Rightarrow> Some \<lparr> tooth_system = UNIVERSAL, tooth_value = v \<rparr>
                             | None \<Rightarrow> None));
                     nextMetadata = (metadata m)
                       \<lparr> dentalPresetId := Some (preset_id p),
                         dentalPresetLabel := Some (preset_label p),
                         dentalUnit := Some (unit p),
                         dentalValue := computeMeasurementValue p (Some m),
                         dentalCreatedAt := nullish (dentalCreatedAt (metadata m)) (Some now) \<rparr>;
                     nextMetadata' =
                       (if toothInfo \<noteq> None then nextMetadata \<lparr> dentalTooth := toothInfo \<rparr>
                        else nextMetadata)
                 in [MeasurementUpdate (uid m) (m \<lparr> metadata := nextMetadata' \<rparr>)])))"

text \<open>
  \<^verbatim>\<open>enhanceExistingMeasurements\<close>; \<open>allMeasurements\<close> is what the measurement
  service's \<^verbatim>\<open>getMeasurements()\<close> returns.
\<close>

definition enhanceExistingMeasurements ::
  "nat \<Rightarrow> ManagerState \<Rightarrow> Measurement list \<Rightarrow> Effect list" where
  "enhanceExistingMeasurements now s allMeasurements =
     (if \<not> getMeasurementService s then []
      else concat (map (enhanceMeasurement now) allMeasurements))"

text \<open>
  The claim about the re-scan speaks of a display label that matches a known preset
  label substring. \<open>matchesPresetLabel\<close> states that in the words of the
  specification, over the labels of the preset table; the source tests four literal
  expressions instead.
\<close>

definition labelText :: "Measurement \<Rightarrow> string" where
  "labelText m = (case label m of Some l \<Rightarrow> l | None \<Rightarrow> [])"

definition matchesPresetLabel :: "Measurement \<Rightarrow> bool" where
  "matchesPresetLabel m =
     (\<exists>p \<in> set DENTAL_MEASUREMENT_PRESETS. regexTestCI (preset_label p) (labelText m))"

section \<open>Measurements panel export (DentalMeasurementsPanel)\<close>




section \<open>Annotations backend (the Annotation model and the annotation routes)\<close>

text \<open>
  Object ids are compared through \<^verbatim>\<open>toString()\<close>; the model keeps each id as that
  text, and an unpopulated reference to a user as the id of the user. A route that
  populates a user reference replaces the id by the user document; \<open>populatedText\<close>,
  a parameter of such a route, gives the text that \<^verbatim>\<open>toString()\<close> returns for the
  document of a user id.
\<close>

datatype Permission = ReadPermission | WritePermission

record ShareEntry =
  share_userId :: string
  share_permission :: Permission
  sharedAt :: nat

record Annotation =
  ann_id :: string
  ann_userId :: string
  ann_text :: string
  category :: string
  status :: string
  priority :: string
  tags :: "string list"
  ann_metadata :: string
  isPrivate :: bool
  sharedWith :: "ShareEntry list"

text \<open>\<^verbatim>\<open>annotationSchema.methods.canAccess\<close>, the permission defaulting to read.\<close>

definition canAccess :: "Annotation \<Rightarrow> string \<Rightarrow> Permission \<Rightarrow> bool" where
  "canAccess this userId permission =
     (if ann_userId this = userId then True
      else if isPrivate this then False
      else
        (case List.find (\<lambda>entry. share_userId entry = userId) (sharedWith this) of
           None \<Rightarrow> False
         | Some sharedEntry \<Rightarrow>
             (if permission = WritePermission
              then share_permission sharedEntry = WritePermission
              else True)))"

text \<open>The pre-save hook: tags in lower case, each kept at its first occurrence.\<close>

definition annotationPreSave :: "Annotation \<Rightarrow> Annotation" where
  "annotationPreSave this =
     this \<lparr> tags := rev (remdups (rev (map (map lowerAscii) (tags this)))) \<rparr>"

definition findById :: "string \<Rightarrow> Annotation list \<Rightarrow> Annotation option" where
  "findById ident annotations = List.find (\<lambda>a. ann_id a = ident) annotations"

text \<open>What a route answers: the status code and, on success, the annotation sent.\<close>

record AnnotationResponse =
  res_status :: nat
  res_annotation :: "Annotation option"

text \<open>
  What \<^verbatim>\<open>populate\<close> of \<^verbatim>\<open>userId\<close> and \<^verbatim>\<open>sharedWith.userId\<close> makes of an
  annotation, as far as \<^verbatim>\<open>canAccess\<close> reads it.
\<close>

definition populateUsers :: "(string \<Rightarrow> string) \<Rightarrow> Annotation \<Rightarrow> Annotation" where
  "populateUsers populatedText a =
     a \<lparr> ann_userId := populatedText (ann_userId a),
         sharedWith := map (\<lambda>e. e \<lparr> share_userId := populatedText (share_userId e) \<rparr>)
                         (sharedWith a) \<rparr>"

text \<open>
  \<^verbatim>\<open>GET /api/annotations/:id\<close> behind the authentication middleware: the annotation is
  found and populated, then the access is checked on the populated document. \<open>throws\<close>
  says that the database call raises.
\<close>

definition getAnnotationRoute ::
  "bool \<Rightarrow> (string \<Rightarrow> string) \<Rightarrow> Annotation list \<Rightarrow> string \<Rightarrow> string
     \<Rightarrow> AnnotationResponse" where
  "getAnnotationRoute throws populatedText annotations reqUserId ident =
     (if throws then \<lparr> res_status = 500, res_annotation = None \<rparr>
      else
        (case map_option (populateUsers populatedText) (findById ident annotations) of
           None \<Rightarrow> \<lparr> res_status = 404, res_annotation = None \<rparr>
         | Some annotation \<Rightarrow>
             if \<not> canAccess annotation reqUserId ReadPermission
             then \<lparr> res_status = 403, res_annotation = None \<rparr>
             else \<lparr> res_status = 200, res_annotation = Some annotation \<rparr>))"

text \<open>
  Two readings of the text of a populated reference: the id itself, and the text that
  the database layer gives a document, its inspection text, which holds the id among
  the selected fields and is not the id.
\<close>

definition idText :: "string \<Rightarrow> string" where
  "idText userId = userId"

definition inspectionText :: "string \<Rightarrow> string" where
  "inspectionText userId = ''{ _id: '' @ userId @ '', profile: {} }''"

text \<open>The body of an update request: the keys the route copies, each optional.\<close>

record UpdateBody =
  upd_text :: "string option"
  upd_category :: "string option"
  upd_status :: "string option"
  upd_priority :: "string option"
  upd_tags :: "string list option"
  upd_metadata :: "string option"
  upd_isPrivate :: "bool option"

definition optionalIn :: "string option \<Rightarrow> string list \<Rightarrow> bool" where
  "optionalIn v allowed = (case v of None \<Rightarrow> True | Some x \<Rightarrow> x \<in> set allowed)"

definition updateAnnotationValidation :: "UpdateBody \<Rightarrow> bool" where
  "updateAnnotationValidation body =
     ((case upd_text body of
         None \<Rightarrow> True
       | Some t \<Rightarrow> 1 \<le> length t \<and> length t \<le> 2000)
      \<and> optionalIn (upd_category body) [''diagnosis'', ''treatment'', ''observation'', ''note'']
      \<and> optionalIn (upd_status body) [''draft'', ''final'', ''reviewed'', ''archived'']
      \<and> optionalIn (upd_priority body) [''low'', ''normal'', ''high'', ''urgent''])"

definition assignUpdates :: "UpdateBody \<Rightarrow> Annotation \<Rightarrow> Annotation" where
  "assignUpdates body annotation =
     annotation
       \<lparr> ann_text := (case upd_text body of Some v \<Rightarrow> v | None \<Rightarrow> ann_text annotation),
         category := (case upd_category body of Some v \<Rightarrow> v | None \<Rightarrow> category annotation),
         status := (case upd_status body of Some v \<Rightarrow> v | None \<Rightarrow> status annotation),
         priority := (case upd_priority body of Some v \<Rightarrow> v | None \<Rightarrow> priority annotation),
         tags := (case upd_tags body of Some v \<Rightarrow> v | None \<Rightarrow> tags annotation),
         ann_metadata :=
           (case upd_metadata body of Some v \<Rightarrow> v | None \<Rightarrow> ann_metadata annotation),
         isPrivate := (case upd_isPrivate body of Some v \<Rightarrow> v | None \<Rightarrow> isPrivate annotation) \<rparr>"

definition replaceAnnotation :: "Annotation \<Rightarrow> Annotation list \<Rightarrow> Annotation list" where
  "replaceAnnotation a annotations =
     map (\<lambda>b. if ann_id b = ann_id a then a else b) annotations"

text \<open>
  \<^verbatim>\<open>PUT /api/annotations/:id\<close> behind the authentication middleware; the access is
  checked on the document as it is found (the route populates it after saving, for
  the answer only). \<open>throws\<close> says that finding or saving the document raises; nothing
  is stored then.
\<close>

definition putAnnotationRoute ::
  "bool \<Rightarrow> Annotation list \<Rightarrow> string \<Rightarrow> string \<Rightarrow> UpdateBody
     \<Rightarrow> AnnotationResponse \<times> Annotation list" where
  "putAnnotationRoute throws annotations reqUserId ident body =
     (if \<not> updateAnnotationValidation body
      then (\<lparr> res_status = 400, res_annotation = None \<rparr>, annotations)
      else if throws then (\<lparr> res_status = 500, res_annotation = None \<rparr>, annotations)
      else
        (case findById ident annotations of
           None \<Rightarrow> (\<lparr> res_status = 404, res_annotation = None \<rparr>, annotations)
         | Some annotation \<Rightarrow>
             if \<not> canAccess annotation reqUserId WritePermission
             then (\<lparr> res_status = 403, res_annotation = None \<rparr>, annotations)
             else
               (let saved = annotationPreSave (assignUpdates body annotation)
                in (\<lparr> res_status = 200, res_annotation = Some saved \<rparr>,
                    replaceAnnotation saved annotations))))"

text \<open>
  The loop of \<^verbatim>\<open>POST /api/annotations/:id/share\<close> over the user ids of the body:
  an existing entry of the user gets the permission, otherwise an entry is pushed.
\<close>

fun shareWith :: "nat \<Rightarrow> Permission \<Rightarrow> string list \<Rightarrow> ShareEntry list \<Rightarrow> ShareEntry list" where
  "shareWith now permission [] shared = shared"
| "shareWith now permission (userId # userIds) shared =
     shareWith now permission userIds
       (case List.find (\<lambda>share. share_userId share = userId) shared of
          Some existingShare \<Rightarrow>
            map (\<lambda>share. if share_userId share = userId
                         then share \<lparr> share_permission := permission \<rparr> else share) shared
        | None \<Rightarrow>
            shared @ [\<lparr> share_userId = userId, share_permission = permission,
                        sharedAt = now \<rparr>])"

text \<open>
  A user holds a grant of a permission on an annotation when the share list has an
  entry of the user with that permission (the words of the specification; the source
  reads the first entry of the user).
\<close>

definition holdsGrant :: "Annotation \<Rightarrow> string \<Rightarrow> Permission \<Rightarrow> bool" where
  "holdsGrant a userId permission =
     (\<exists>e \<in> set (sharedWith a). share_userId e = userId \<and> share_permission e = permission)"

section \<open>Viewer state backend (the ViewerState model and the viewer-state routes)\<close>

text \<open>
  A stored viewer state. The state object is kept as an opaque text; ids are the
  numbers a counter hands out, times are milliseconds.
\<close>

record ViewerState =
  vs_id :: nat
  vs_userId :: string
  vs_studyInstanceUID :: string
  vs_sessionId :: string
  vs_state :: string
  autoSaved :: bool
  version :: nat
  createdAt :: nat
  updatedAt :: nat

record ViewerDb =
  states :: "ViewerState list"
  nextId :: nat

text \<open>A request body; a state that is present is an object.\<close>

record SaveBody =
  body_studyInstanceUID :: "string option"
  body_sessionId :: "string option"
  body_state :: "string option"
  body_autoSaved :: "bool option"

record ViewerResponse =
  vres_status :: nat
  vres_success :: "bool option"
  vres_stateId :: "nat option"
  vres_version :: "nat option"
  vres_timestamp :: "nat option"

definition errorResponse :: "nat \<Rightarrow> ViewerResponse" where
  "errorResponse code =
     \<lparr> vres_status = code, vres_success = None, vres_stateId = None,
       vres_version = None, vres_timestamp = None \<rparr>"

text \<open>
  The schema declares \<^verbatim>\<open>studyInstanceUID\<close> and \<^verbatim>\<open>sessionId\<close> with \<^verbatim>\<open>trim: true\<close>:
  the value is trimmed when it is set on a document and when a query filter is cast.
  \<open>trim\<close> is \<^verbatim>\<open>String.prototype.trim\<close> on the code units that a \<open>char\<close> holds: tab,
  line feed, vertical tab, form feed, carriage return, space and no-break space.
\<close>

definition isWhiteSpace :: "char \<Rightarrow> bool" where
  "isWhiteSpace c = (of_char c \<in> {9, 10, 11, 12, 13, 32, 160 :: nat})"

definition trim :: "string \<Rightarrow> string" where
  "trim t = rev (dropWhile isWhiteSpace (rev (dropWhile isWhiteSpace t)))"

text \<open>\<^verbatim>\<open>findOne({ userId, studyInstanceUID, sessionId })\<close>, the filter cast by the schema.\<close>

definition findOneState :: "string \<Rightarrow> string \<Rightarrow> string \<Rightarrow> ViewerDb \<Rightarrow> ViewerState option" where
  "findOneState userId studyInstanceUID sessionId db =
     List.find (\<lambda>d. vs_userId d = userId \<and> vs_studyInstanceUID d = trim studyInstanceUID
                    \<and> vs_sessionId d = trim sessionId) (states db)"

text \<open>
  The states of one user and study, as \<^verbatim>\<open>find({ userId, studyInstanceUID })\<close> selects
  them, the filter cast by the schema.
\<close>

definition statesOf :: "string \<Rightarrow> string \<Rightarrow> ViewerDb \<Rightarrow> ViewerState list" where
  "statesOf userId studyInstanceUID db =
     filter (\<lambda>d. vs_userId d = userId \<and> vs_studyInstanceUID d = trim studyInstanceUID)
       (states db)"

text \<open>
  The pre-save hook of the schema; \<open>isModified\<close> and \<open>isNew\<close> are what the document
  reports of itself.
\<close>

definition viewerStatePreSave :: "bool \<Rightarrow> bool \<Rightarrow> ViewerState \<Rightarrow> ViewerState" where
  "viewerStatePreSave isModified isNew this =
     (if isModified \<and> \<not> isNew then this \<lparr> version := version this + 1 \<rparr> else this)"

text \<open>
  \<^verbatim>\<open>cleanupOldStates\<close>: the states of the user and study, newest update first, without
  the first ten, are deleted by id. States updated at the same time keep their
  stored order.
\<close>

definition cleanupOldStates :: "string \<Rightarrow> string \<Rightarrow> ViewerDb \<Rightarrow> ViewerDb" where
  "cleanupOldStates userId studyInstanceUID db =
     (let old = drop 10 (sort_key (\<lambda>d. - int (updatedAt d))
                           (statesOf userId studyInstanceUID db))
      in if length old > 0
         then (let idsToDelete = map vs_id old
               in db \<lparr> states := filter (\<lambda>d. vs_id d \<notin> set idsToDelete) (states db) \<rparr>)
         else db)"

text \<open>The rules of the request validation: \<^verbatim>\<open>notEmpty()\<close> looks at the value as sent.\<close>

definition notEmpty :: "string option \<Rightarrow> bool" where
  "notEmpty v = (case v of None \<Rightarrow> False | Some t \<Rightarrow> t \<noteq> [])"

definition saveStateValidation :: "SaveBody \<Rightarrow> bool" where
  "saveStateValidation body =
     (notEmpty (body_studyInstanceUID body) \<and> notEmpty (body_sessionId body)
      \<and> body_state body \<noteq> None)"

text \<open>
  The validation that \<^verbatim>\<open>document.save()\<close> runs before it writes: the required keys
  (a required string must not be empty) and the validators of the state, which are
  given as the predicate \<open>validators\<close>.
\<close>

definition schemaValidation :: "(string \<Rightarrow> bool) \<Rightarrow> ViewerState \<Rightarrow> bool" where
  "schemaValidation validators doc =
     (vs_studyInstanceUID doc \<noteq> [] \<and> vs_sessionId doc \<noteq> [] \<and> validators (vs_state doc))"

text \<open>
  The write of \<^verbatim>\<open>document.save()\<close> for a document that was found and assigned to. The
  route assigns the state object of the request to the nested path \<^verbatim>\<open>state\<close>, which
  marks the document modified whatever the object holds: \<^verbatim>\<open>isModified()\<close> is true in
  the hook. The document gets the time of the save and replaces the stored one.
\<close>

definition saveExisting :: "nat \<Rightarrow> ViewerState \<Rightarrow> ViewerDb \<Rightarrow> ViewerState \<times> ViewerDb" where
  "saveExisting now assigned db =
     (let hooked = viewerStatePreSave True False assigned;
          saved = hooked \<lparr> updatedAt := now \<rparr>
      in (saved, db \<lparr> states := map (\<lambda>d. if vs_id d = vs_id saved then saved else d)
                                  (states db) \<rparr>))"

text \<open>
  \<^verbatim>\<open>new ViewerState({...})\<close>: the keys trimmed, the defaults and a fresh id (the
  timestamps are 0 until the document is saved); and the write of \<^verbatim>\<open>document.save()\<close>
  for it, which sets both timestamps.
\<close>

definition newViewerState ::
  "string \<Rightarrow> string \<Rightarrow> string \<Rightarrow> string \<Rightarrow> bool \<Rightarrow> ViewerDb \<Rightarrow> ViewerState" where
  "newViewerState userId studyInstanceUID sessionId state autoSavedFlag db =
     \<lparr> vs_id = nextId db, vs_userId = userId,
       vs_studyInstanceUID = trim studyInstanceUID, vs_sessionId = trim sessionId,
       vs_state = state, autoSaved = autoSavedFlag, version = 1,
       createdAt = 0, updatedAt = 0 \<rparr>"

definition saveNew :: "nat \<Rightarrow> ViewerState \<Rightarrow> ViewerDb \<Rightarrow> ViewerState \<times> ViewerDb" where
  "saveNew now document db =
     (let created = (viewerStatePreSave True True document)
                       \<lparr> createdAt := now, updatedAt := now \<rparr>
      in (created, db \<lparr> states := states db @ [created], nextId := nextId db + 1 \<rparr>))"

text \<open>
  What can raise inside the \<^verbatim>\<open>try\<close> block of the save route besides the validation
  of the document: the query, the write, or the cleanup after the document is
  written. Each comes with the \<^verbatim>\<open>code\<close> of its error, if it has one (11000 is the
  duplicate key error); a validation error has none.
\<close>

datatype SaveFailure =
    FindFails "nat option"
  | WriteFails "nat option"
  | CleanupFails "nat option"

definition caught :: "nat option \<Rightarrow> ViewerResponse" where
  "caught code = errorResponse (if code = Some 11000 then 409 else 500)"

text \<open>
  \<^verbatim>\<open>POST /api/viewer-state/save\<close> behind the authentication middleware. \<open>now\<close> is the
  time of the save, \<open>failure\<close> what raises, if anything does.
\<close>

definition saveRoute ::
  "nat \<Rightarrow> (string \<Rightarrow> bool) \<Rightarrow> SaveFailure option \<Rightarrow> string \<Rightarrow> SaveBody \<Rightarrow> ViewerDb
     \<Rightarrow> ViewerResponse \<times> ViewerDb" where
  "saveRoute now validators failure userId body db =
     (if \<not> saveStateValidation body then (errorResponse 400, db)
      else
        (let studyInstanceUID = the (body_studyInstanceUID body);
             sessionId = the (body_sessionId body);
             state = the (body_state body);
             autoSavedFlag = (case body_autoSaved body of Some b \<Rightarrow> b | None \<Rightarrow> False)
         in case failure of
              Some (FindFails code) \<Rightarrow> (caught code, db)
            | _ \<Rightarrow>
              (let found = findOneState userId studyInstanceUID sessionId db;
                   viewerState =
                     (case found of
                        Some stored \<Rightarrow> stored \<lparr> vs_state := state, autoSaved := autoSavedFlag \<rparr>
                      | None \<Rightarrow> newViewerState userId studyInstanceUID sessionId state
                                  autoSavedFlag db)
               in if \<not> schemaValidation validators viewerState then (caught None, db)
                  else
                    (case failure of
                       Some (WriteFails code) \<Rightarrow> (caught code, db)
                     | _ \<Rightarrow>
                       (let (saved, db1) =
                              (case found of
                                 Some stored \<Rightarrow> saveExisting now viewerState db
                               | None \<Rightarrow> saveNew now viewerState db)
                        in case failure of
                             Some (CleanupFails code) \<Rightarrow> (caught code, db1)
                           | _ \<Rightarrow>
                             (let db2 = cleanupOldStates userId studyInstanceUID db1
                              in (\<lparr> vres_status = 200, vres_success = None,
                                    vres_stateId = Some (vs_id saved),
                                    vres_version = Some (version saved),
                                    vres_timestamp = Some (updatedAt saved) \<rparr>, db2)))))))"

text \<open>
  A run of save requests of one user for one study, each with its time, session id and
  state, on a schema that accepts every state and a database that raises no error.
\<close>

definition acceptAll :: "string \<Rightarrow> bool" where
  "acceptAll state = True"

definition saveRequest :: "string \<Rightarrow> string \<Rightarrow> string \<Rightarrow> SaveBody" where
  "saveRequest studyInstanceUID sessionId state =
     \<lparr> body_studyInstanceUID = Some studyInstanceUID, body_sessionId = Some sessionId,
       body_state = Some state, body_autoSaved = None \<rparr>"

fun saveSessions ::
  "string \<Rightarrow> string \<Rightarrow> (nat \<times> string \<times> string) list \<Rightarrow> ViewerDb \<Rightarrow> ViewerDb" where
  "saveSessions userId studyInstanceUID [] db = db"
| "saveSessions userId studyInstanceUID ((now, sessionId, state) # requests) db =
     saveSessions userId studyInstanceUID requests
       (snd (saveRoute now acceptAll None userId
               (saveRequest studyInstanceUID sessionId state) db))"

text \<open>
  The schema accepts the document that a request leads to: the keys, trimmed, are not
  empty and the validators accept the state.
\<close>

definition schemaAccepts :: "(string \<Rightarrow> bool) \<Rightarrow> SaveBody \<Rightarrow> bool" where
  "schemaAccepts validators body =
     (trim (the (body_studyInstanceUID body)) \<noteq> [] \<and> trim (the (body_sessionId body)) \<noteq> []
      \<and> validators (the (body_state body)))"

text \<open>Ids of stored states are unique and below the counter.\<close>

definition wellFormedDb :: "ViewerDb \<Rightarrow> bool" where
  "wellFormedDb db =
     (distinct (map vs_id (states db)) \<and> (\<forall>d \<in> set (states db). vs_id d < nextId db))"

text \<open>
  The answer of a successful save, the state that a save creates, what identifies a
  stored state in the statements (its time of update, its session and its state), and
  what a request of a run is stored as.
\<close>

definition okResponse :: "ViewerState \<Rightarrow> ViewerResponse" where
  "okResponse d = \<lparr> vres_status = 200, vres_success = None, vres_stateId = Some (vs_id d),
                     vres_version = Some (version d), vres_timestamp = Some (updatedAt d) \<rparr>"

definition createdState ::
  "nat \<Rightarrow> string \<Rightarrow> string \<Rightarrow> string \<Rightarrow> string \<Rightarrow> bool \<Rightarrow> ViewerDb \<Rightarrow> ViewerState" where
  "createdState now userId studyInstanceUID sessionId state flag db =
     \<lparr> vs_id = nextId db, vs_userId = userId, vs_studyInstanceUID = trim studyInstanceUID,
       vs_sessionId = trim sessionId, vs_state = state, autoSaved = flag, version = 1,
       createdAt = now, updatedAt = now \<rparr>"

definition stateSummary :: "ViewerState \<Rightarrow> nat \<times> string \<times> string" where
  "stateSummary d = (updatedAt d, vs_sessionId d, vs_state d)"

definition storedAs :: "nat \<times> string \<times> string \<Rightarrow> nat \<times> string \<times> string" where
  "storedAs request = (fst request, trim (fst (snd request)), snd (snd request))"

text \<open>
  \<^verbatim>\<open>findOneAndUpdate\<close> with \<^verbatim>\<open>upsert\<close> as the auto-save calls it, the filter cast by
  the schema: the matching state gets the new state, the auto-saved flag, a version
  one higher and the time of the update; without a match a state is inserted with the
  keys of the cast filter, whose version the increment makes 1.
\<close>

definition findOneAndUpdateUpsert ::
  "nat \<Rightarrow> string \<Rightarrow> string \<Rightarrow> string \<Rightarrow> string \<Rightarrow> ViewerDb \<Rightarrow> ViewerState \<times> ViewerDb" where
  "findOneAndUpdateUpsert now userId studyInstanceUID sessionId state db =
     (case findOneState userId studyInstanceUID sessionId db of
        Some stored \<Rightarrow>
          (let updated = stored \<lparr> vs_state := state, autoSaved := True,
                                  version := version stored + 1, updatedAt := now \<rparr>
           in (updated, db \<lparr> states := map (\<lambda>d. if vs_id d = vs_id updated then updated else d)
                                         (states db) \<rparr>))
      | None \<Rightarrow>
          (let inserted =
                 \<lparr> vs_id = nextId db, vs_userId = userId,
                   vs_studyInstanceUID = trim studyInstanceUID, vs_sessionId = trim sessionId,
                   vs_state = state, autoSaved = True, version = 1,
                   createdAt = now, updatedAt = now \<rparr>
           in (inserted, db \<lparr> states := states db @ [inserted], nextId := nextId db + 1 \<rparr>)))"

text \<open>
  What can raise inside the \<^verbatim>\<open>try\<close> block of the auto-save after the check of the
  fields: the database call before it writes, or a step after the document is written
  (the rest of the call, or the answer).
\<close>

datatype AutoSaveFailure = UpsertFails | FailsAfterUpsert

definition softFailure :: ViewerResponse where
  "softFailure = \<lparr> vres_status = 200, vres_success = Some False, vres_stateId = None,
                    vres_version = None, vres_timestamp = None \<rparr>"

text \<open>\<^verbatim>\<open>POST /api/viewer-state/auto-save\<close> behind the authentication middleware.\<close>

definition autoSaveRoute ::
  "nat \<Rightarrow> AutoSaveFailure option \<Rightarrow> string \<Rightarrow> SaveBody \<Rightarrow> ViewerDb
     \<Rightarrow> ViewerResponse \<times> ViewerDb" where
  "autoSaveRoute now failure userId body db =
     (if \<not> notEmpty (body_studyInstanceUID body) \<or> \<not> notEmpty (body_sessionId body)
         \<or> body_state body = None
      then (errorResponse 400, db)
      else
        (case failure of
           Some UpsertFails \<Rightarrow> (softFailure, db)
         | _ \<Rightarrow>
           (let (result, db1) =
                  findOneAndUpdateUpsert now userId (the (body_studyInstanceUID body))
                    (the (body_sessionId body)) (the (body_state body)) db
            in case failure of
                 Some FailsAfterUpsert \<Rightarrow> (softFailure, db1)
               | _ \<Rightarrow>
                 (\<lparr> vres_status = 200, vres_success = Some True,
                    vres_stateId = Some (vs_id result), vres_version = Some (version result),
                    vres_timestamp = None \<rparr>, db1))))"

text \<open>The check of the fields that the auto-save makes, and its answer of success.\<close>

definition fieldsPresent :: "SaveBody \<Rightarrow> bool" where
  "fieldsPresent body =
     (notEmpty (body_studyInstanceUID body) \<and> notEmpty (body_sessionId body)
      \<and> body_state body \<noteq> None)"

definition autoSaveOk :: "ViewerState \<Rightarrow> ViewerResponse" where
  "autoSaveOk d = \<lparr> vres_status = 200, vres_success = Some True, vres_stateId = Some (vs_id d),
                     vres_version = Some (version d), vres_timestamp = None \<rparr>"

section \<open>Example values\<close>

text \<open>Concrete states, measurements and documents on which the theorems are instantiated.\<close>

definition initialState :: ManagerState where
  "initialState = \<lparr> integration = None, activePresetId = None, activeTooth = None,
                    subscriptions = [], lastInitializationId = None \<rparr>"

definition hostServices :: IntegrationContext where
  "hostServices = \<lparr> measurementService = True, commandsManager = True,
                    toolGroupIds = [''dental''] \<rparr>"

definition emptyMetadata :: Metadata where
  "emptyMetadata = \<lparr> dentalPresetId = None, dentalPresetLabel = None, dentalUnit = None,
     dentalValue = Undefined, dentalCreatedAt = None, dentalTooth = None,
     meta_cachedStats = None, meta_length = Undefined \<rparr>"

definition tooth11 :: DentalToothSelection where
  "tooth11 = \<lparr> tooth_system = FDI, tooth_value = ''11'' \<rparr>"

definition activeState :: ManagerState where
  "activeState = \<lparr> integration = Some hostServices, activePresetId = Some ''periapical-length'',
      activeTooth = Some tooth11, subscriptions = [], lastInitializationId = None \<rparr>"

definition rawMeasurement :: Measurement where
  "rawMeasurement = \<lparr> uid = ''m1'', label = Some ''Length'', metadata = emptyMetadata,
      data = Some [\<lparr> entry_angle = Undefined, entry_length = Defined (Num 15.5),
                    entry_value = Undefined \<rparr>],
      cachedStats = None, m_angle = Undefined, m_length = Undefined \<rparr>"

definition enrichedMeasurement :: Measurement where
  "enrichedMeasurement = rawMeasurement
     \<lparr> label := Some ''PA length (FDI 11)'',
       metadata := emptyMetadata
         \<lparr> dentalPresetId := Some ''periapical-length'', dentalPresetLabel := Some ''PA length'',
           dentalUnit := Some ''mm'', dentalValue := Defined (Num 15.5), dentalCreatedAt := Some 1000,
           dentalTooth := Some tooth11 \<rparr> \<rparr>"

text \<open>
  An enriched measurement whose length the host reports as \<^verbatim>\<open>NaN\<close>: its metadata and
  label are the ones the enricher computes for it.
\<close>

definition nanMeasurement :: Measurement where
  "nanMeasurement =
     \<lparr> uid = ''m1'', label = Some ''PA length (FDI 11)'',
       metadata = emptyMetadata
         \<lparr> dentalPresetId := Some ''periapical-length'', dentalPresetLabel := Some ''PA length'',
           dentalUnit := Some ''mm'', dentalValue := Defined NaN, dentalCreatedAt := Some 1000,
           dentalTooth := Some tooth11 \<rparr>,
       data = Some [\<lparr> entry_angle = Undefined, entry_length = Defined NaN,
                      entry_value = Undefined \<rparr>],
       cachedStats = None, m_angle = Undefined, m_length = Undefined \<rparr>"

definition periapicalPreset :: DentalMeasurementPreset where
  "periapicalPreset = \<lparr> preset_id = ''periapical-length'', preset_label = ''PA length'',
        toolName = ''Length'', unit = ''mm'',
        description = ''Standard periapical length measurement.'',
        icon = None, valueAccessor = None \<rparr>"

definition sessionState :: ManagerState where
  "sessionState =
     fst (selectDentalMeasurementPreset ''canal-angle''
            (setActiveDentalTooth (Some tooth11)
               (fst (initializeDentalMeasurements ''u1'' hostServices initialState))))"


definition workflowState :: ManagerState where
  "workflowState =
     \<lparr> integration = Some hostServices, activePresetId = Some ''periapical-length'',
       activeTooth = Some \<lparr> tooth_system = FDI, tooth_value = ''21'' \<rparr>,
       subscriptions =
         [\<lparr> sub_event = MEASUREMENT_ADDED, sub_listener = ''dental-measurements-u1'' \<rparr>,
          \<lparr> sub_event = MEASUREMENT_UPDATED, sub_listener = ''dental-measurements-u1'' \<rparr>,
          \<lparr> sub_event = MEASUREMENTS_CLEARED, sub_listener = ''dental-measurements-u1'' \<rparr>],
       lastInitializationId = Some ''dental-measurements-u1'' \<rparr>"

definition scannedLabel :: string where
  "scannedLabel = ''pa LENGTH (fdi 26)''"

definition scannedMeasurement :: Measurement where
  "scannedMeasurement = \<lparr> uid = ''m2'', label = Some scannedLabel,
      metadata = emptyMetadata,
      data = Some [\<lparr> entry_angle = Undefined, entry_length = Defined (Num 9),
                    entry_value = Undefined \<rparr>],
      cachedStats = None, m_angle = Undefined, m_length = Undefined \<rparr>"

definition baseAnnotation :: Annotation where
  "baseAnnotation = \<lparr> ann_id = ''a1'', ann_userId = ''userA'', ann_text = ''caries'',
      category = ''diagnosis'', status = ''draft'', priority = ''normal'', tags = [],
      ann_metadata = [], isPrivate = True, sharedWith = [] \<rparr>"

definition privateAnnotation :: Annotation where
  "privateAnnotation =
     baseAnnotation \<lparr> sharedWith := shareWith 7 WritePermission [''userB''] [] \<rparr>"

definition readShared :: Annotation where
  "readShared = baseAnnotation
     \<lparr> isPrivate := False, sharedWith := shareWith 7 ReadPermission [''userB''] [] \<rparr>"

definition writeShared :: Annotation where
  "writeShared = readShared
     \<lparr> sharedWith := shareWith 8 WritePermission [''userB''] (sharedWith readShared) \<rparr>"

definition noUpdate :: UpdateBody where
  "noUpdate = \<lparr> upd_text = None, upd_category = None, upd_status = None,
      upd_priority = None, upd_tags = None, upd_metadata = None, upd_isPrivate = None \<rparr>"

definition emptyDb :: ViewerDb where
  "emptyDb = \<lparr> states = [], nextId = 0 \<rparr>"

definition firstRequest :: SaveBody where
  "firstRequest = saveRequest ''study1'' ''s1'' ''zoom1''"

definition changedRequest :: SaveBody where
  "changedRequest = saveRequest ''study1'' ''s1'' ''zoom2''"

definition otherSessionRequest :: SaveBody where
  "otherSessionRequest = saveRequest ''study1'' ''s2'' ''zoom1''"

definition firstState :: ViewerState where
  "firstState = \<lparr> vs_id = 0, vs_userId = ''userA'', vs_studyInstanceUID = ''study1'',
       vs_sessionId = ''s1'', vs_state = ''zoom1'', autoSaved = False, version = 1,
       createdAt = 100, updatedAt = 100 \<rparr>"

definition storedDb :: ViewerDb where
  "storedDb = \<lparr> states = [firstState], nextId = 1 \<rparr>"

definition elevenRequests :: "(nat \<times> string \<times> string) list" where
  "elevenRequests =
     [(1, ''s1'', ''a''), (2, ''s2'', ''b''), (3, ''s3'', ''c''), (4, ''s4'', ''d''),
      (5, ''s5'', ''e''), (6, ''s6'', ''f''), (7, ''s7'', ''g''), (8, ''s8'', ''h''),
      (9, ''s9'', ''i''), (10, ''s10'', ''j''), (11, ''s11'', ''k'')]"

definition rejectAll :: "string \<Rightarrow> bool" where
  "rejectAll state = False"

definition paddedRequest :: SaveBody where
  "paddedRequest = saveRequest ''study1 '' '' s1'' ''zoom3''"

definition missingRequest :: SaveBody where
  "missingRequest = \<lparr> body_studyInstanceUID = Some ''study1'', body_sessionId = Some [],
                       body_state = Some ''zoom1'', body_autoSaved = None \<rparr>"

section \<open>Properties of the measurements manager\<close>

subsection \<open>The preset table\<close>

lemma preset_ids:
  "map preset_id DENTAL_MEASUREMENT_PRESETS
     = [''periapical-length'', ''canal-angle'', ''crown-width'', ''root-length'']"
  by (simp add: DENTAL_MEASUREMENT_PRESETS_def)

lemma preset_ids_distinct: "distinct (map preset_id DENTAL_MEASUREMENT_PRESETS)"
  by (simp add: preset_ids)

lemma preset_cases:
  assumes "p \<in> set DENTAL_MEASUREMENT_PRESETS"
  shows "p = DENTAL_MEASUREMENT_PRESETS ! 0 \<or> p = DENTAL_MEASUREMENT_PRESETS ! 1
         \<or> p = DENTAL_MEASUREMENT_PRESETS ! 2 \<or> p = DENTAL_MEASUREMENT_PRESETS ! 3"
proof -
  from assms obtain i where i: "i < length DENTAL_MEASUREMENT_PRESETS"
    and p: "p = DENTAL_MEASUREMENT_PRESETS ! i"
    by (auto simp: in_set_conv_nth)
  have "length DENTAL_MEASUREMENT_PRESETS = 4"
    by (simp add: DENTAL_MEASUREMENT_PRESETS_def)
  with i have "i = 0 \<or> i = 1 \<or> i = 2 \<or> i = 3" by arith
  with p show ?thesis by auto
qed

lemma preset_in_table:
  "p \<in> set DENTAL_MEASUREMENT_PRESETS \<Longrightarrow> valueAccessor p = None \<and> preset_id p \<noteq> []"
  by (drule preset_cases) (elim disjE; simp add: DENTAL_MEASUREMENT_PRESETS_def)

lemma find_distinct_key:
  "distinct (map f xs) \<Longrightarrow> x \<in> set xs \<Longrightarrow>
   List.find (\<lambda>y. Some (f y) = Some (f x)) xs = Some x"
  by (induction xs) (auto simp: rev_image_eqI)

lemma findPreset_by_own_id:
  "p \<in> set DENTAL_MEASUREMENT_PRESETS \<Longrightarrow> findPreset (Some (preset_id p)) = Some p"
  unfolding findPreset_def using find_distinct_key [OF preset_ids_distinct] by blast

lemma find_in_table:
  "List.find P DENTAL_MEASUREMENT_PRESETS = Some p \<Longrightarrow> p \<in> set DENTAL_MEASUREMENT_PRESETS"
  by (auto simp: find_Some_iff)

lemma findPreset_in_table:
  "findPreset v = Some p \<Longrightarrow> p \<in> set DENTAL_MEASUREMENT_PRESETS \<and> v = Some (preset_id p)"
  unfolding findPreset_def by (auto simp: find_Some_iff)

lemma findPreset_Some_iff:
  "(\<exists>p. findPreset (Some i) = Some p) \<longleftrightarrow> i \<in> set (map preset_id DENTAL_MEASUREMENT_PRESETS)"
proof
  assume "\<exists>p. findPreset (Some i) = Some p"
  then show "i \<in> set (map preset_id DENTAL_MEASUREMENT_PRESETS)"
    by (auto dest: findPreset_in_table)
next
  assume "i \<in> set (map preset_id DENTAL_MEASUREMENT_PRESETS)"
  then obtain p where "p \<in> set DENTAL_MEASUREMENT_PRESETS" "i = preset_id p" by auto
  then show "\<exists>p. findPreset (Some i) = Some p"
    using findPreset_by_own_id by blast
qed

lemma periapicalPreset_in_table: "periapicalPreset \<in> set DENTAL_MEASUREMENT_PRESETS"
  by (simp add: periapicalPreset_def DENTAL_MEASUREMENT_PRESETS_def)

subsection \<open>What one enrichment computes\<close>

lemma computeMeasurementValue_relabel:
  "valueAccessor p = None \<Longrightarrow> meta_cachedStats md = meta_cachedStats (metadata m) \<Longrightarrow>
   meta_length md = meta_length (metadata m) \<Longrightarrow>
   computeMeasurementValue p (Some (m \<lparr> label := l, metadata := md \<rparr>))
     = computeMeasurementValue p (Some m)"
  by (simp add: computeMeasurementValue_def Let_def split: option.splits list.splits)

lemma nextMetadataOf_keeps:
  "meta_cachedStats (nextMetadataOf now s p m) = meta_cachedStats (metadata m)"
  "meta_length (nextMetadataOf now s p m) = meta_length (metadata m)"
  "dentalPresetId (nextMetadataOf now s p m) = Some (preset_id p)"
  "dentalPresetLabel (nextMetadataOf now s p m) = Some (preset_label p)"
  "dentalUnit (nextMetadataOf now s p m) = Some (unit p)"
  "dentalValue (nextMetadataOf now s p m) = computeMeasurementValue p (Some m)"
  "dentalTooth (nextMetadataOf now s p m) = nullish (dentalTooth (metadata m)) (activeTooth s)"
  "dentalCreatedAt (nextMetadataOf now s p m) = nullish (dentalCreatedAt (metadata m)) (Some now)"
  by (auto simp: nextMetadataOf_def Let_def nullish_def split: option.splits)

lemma metadataChanged_same: "dentalValue md \<noteq> Defined NaN \<Longrightarrow> \<not> metadataChanged md md"
  by (simp add: metadataChanged_def strictNe_def)

lemma metadataChanged_nan: "dentalValue md = Defined NaN \<Longrightarrow> metadataChanged md md'"
  by (simp add: metadataChanged_def strictNe_def)

text \<open>
  Enriching the measurement that an enrichment sends to the host computes the same
  metadata again: the creation time is kept, a tooth that was attached stays, and the
  value is read from fields the update does not touch. The comparison then finds no
  change unless the value is \<^verbatim>\<open>NaN\<close>.
\<close>

lemma nextMetadataOf_fixpoint:
  assumes "valueAccessor p = None"
  shows "nextMetadataOf now' s p (m \<lparr> label := l, metadata := nextMetadataOf now s p m \<rparr>)
           = nextMetadataOf now s p m"
proof -
  let ?nm = "nextMetadataOf now s p m"
  let ?m' = "m \<lparr> label := l, metadata := ?nm \<rparr>"
  have v: "computeMeasurementValue p (Some ?m') = computeMeasurementValue p (Some m)"
    using assms by (simp add: computeMeasurementValue_relabel nextMetadataOf_keeps)
  have c: "nullish (dentalCreatedAt ?nm) (Some now') = dentalCreatedAt ?nm"
    by (simp add: nextMetadataOf_keeps nullish_def split: option.splits)
  have t: "dentalTooth ?nm = None \<Longrightarrow> activeTooth s = None"
    by (simp add: nextMetadataOf_keeps nullish_def split: option.splits)
  have "nextMetadataOf now' s p ?m' =
        (let nextMetadata = ?nm
            \<lparr> dentalPresetId := Some (preset_id p),
              dentalPresetLabel := Some (preset_label p),
              dentalUnit := Some (unit p),
              dentalValue := computeMeasurementValue p (Some ?m'),
              dentalCreatedAt := nullish (dentalCreatedAt ?nm) (Some now') \<rparr>
      in if dentalTooth nextMetadata = None \<and> activeTooth s \<noteq> None
         then nextMetadata \<lparr> dentalTooth := activeTooth s \<rparr>
         else nextMetadata)"
    by (simp add: nextMetadataOf_def [of now' s p ?m'])
  also have "\<dots> = ?nm"
    using t by (simp add: v c Let_def nextMetadataOf_keeps [symmetric])
  finally show ?thesis .
qed

lemma applyDentalMetadata_effects:
  "e \<in> set (applyDentalMetadata now s mo preset) \<Longrightarrow>
   \<exists>m p. mo = Some m \<and> presetToApply s m preset = Some p
     \<and> e = MeasurementUpdate (uid m)
             (m \<lparr> label := Some (labelSuffixOf p (nextMetadataOf now s p m)),
                  metadata := nextMetadataOf now s p m \<rparr>)"
  by (auto simp: applyDentalMetadata_def Let_def split: option.splits if_splits)

lemma updated_on_enriched:
  assumes p: "p \<in> set DENTAL_MEASUREMENT_PRESETS"
    and number: "computeMeasurementValue p (Some m) \<noteq> Defined NaN"
  shows "handleMeasurementUpdated now' s
           (Some (m \<lparr> label := Some (labelSuffixOf p (nextMetadataOf now s p m)),
                      metadata := nextMetadataOf now s p m \<rparr>)) = []"
proof -
  let ?nm = "nextMetadataOf now s p m"
  let ?m' = "m \<lparr> label := Some (labelSuffixOf p ?nm), metadata := ?nm \<rparr>"
  have acc: "valueAccessor p = None" and ne: "preset_id p \<noteq> []"
    using p preset_in_table by blast+
  have fp: "findPreset (dentalPresetId (metadata ?m')) = Some p"
    using p by (simp add: nextMetadataOf_keeps findPreset_by_own_id)
  have has: "measurementHasDentalMetadata ?m'"
    using ne by (simp add: measurementHasDentalMetadata_def truthy_def nextMetadataOf_keeps)
  have nm: "nextMetadataOf now' s p ?m' = ?nm"
    using acc by (rule nextMetadataOf_fixpoint)
  have "dentalValue ?nm \<noteq> Defined NaN"
    using number by (simp add: nextMetadataOf_keeps)
  then have "\<not> metadataChanged ?nm ?nm" by (rule metadataChanged_same)
  then have "applyDentalMetadata now' s (Some ?m') (Some p) = []"
    by (simp add: applyDentalMetadata_def presetToApply_def nm Let_def)
  then show ?thesis
    unfolding handleMeasurementUpdated_def using has fp by simp
qed

lemma handleMeasurementAdded_example:
  "handleMeasurementAdded 1000 activeState (Some rawMeasurement)
     = [MeasurementUpdate ''m1'' enrichedMeasurement]"
  by (simp add: handleMeasurementAdded_def applyDentalMetadata_def presetToApply_def
      nextMetadataOf_def labelSuffixOf_def metadataChanged_def computeMeasurementValue_def
      findPreset_def DENTAL_MEASUREMENT_PRESETS_def truthy_def nullish_def angleLike_def
      getMeasurementService_def degreeSign_def coalesce_def strictNe_def
      activeState_def rawMeasurement_def enrichedMeasurement_def emptyMetadata_def tooth11_def
      hostServices_def Let_def)

lemma enriched_example_unchanged:
  "dentalPresetId (metadata enrichedMeasurement) = Some (preset_id periapicalPreset)
      \<and> dentalPresetLabel (metadata enrichedMeasurement) = Some (preset_label periapicalPreset)
      \<and> dentalUnit (metadata enrichedMeasurement) = Some (unit periapicalPreset)
      \<and> dentalValue (metadata enrichedMeasurement)
          = computeMeasurementValue periapicalPreset (Some enrichedMeasurement)
      \<and> dentalTooth (metadata enrichedMeasurement)
          = nullish (dentalTooth (metadata enrichedMeasurement)) (activeTooth activeState)
      \<and> label enrichedMeasurement
          = Some (labelSuffixOf periapicalPreset (metadata enrichedMeasurement))"
  by (simp add: periapicalPreset_def enrichedMeasurement_def rawMeasurement_def
      emptyMetadata_def tooth11_def activeState_def computeMeasurementValue_def angleLike_def
      degreeSign_def nullish_def coalesce_def labelSuffixOf_def)

subsection \<open>Idempotence of the enrichment\<close>

text \<open>
  With a value that is not \<^verbatim>\<open>NaN\<close> the enrichment is idempotent. A measurement whose
  preset id, preset label, unit, value, tooth and label are already the ones the
  enricher computes for it carries dental metadata, and the measurement-updated handler
  issues no update for it. And every update that the measurement-added or the
  measurement-updated handler sends to the host carries a measurement on which the
  measurement-updated handler, run again in the same manager state at any later time,
  issues no update: the notification that the host re-emits for the update ends the
  exchange.
\<close>

lemma enrichment_silent_without_nan:
  "(p \<in> set DENTAL_MEASUREMENT_PRESETS
      \<and> dentalPresetId (metadata m) = Some (preset_id p)
      \<and> dentalPresetLabel (metadata m) = Some (preset_label p)
      \<and> dentalUnit (metadata m) = Some (unit p)
      \<and> dentalValue (metadata m) = computeMeasurementValue p (Some m)
      \<and> dentalValue (metadata m) \<noteq> Defined NaN
      \<and> dentalTooth (metadata m) = nullish (dentalTooth (metadata m)) (activeTooth s)
      \<and> label m = Some (labelSuffixOf p (metadata m))
    \<longrightarrow> measurementHasDentalMetadata m \<and> handleMeasurementUpdated now s (Some m) = [])
   \<and> (MeasurementUpdate u m' \<in> set (handleMeasurementAdded now s mo)
           \<union> set (handleMeasurementUpdated now s mo)
        \<and> dentalValue (metadata m') \<noteq> Defined NaN
        \<longrightarrow> measurementHasDentalMetadata m' \<and> handleMeasurementUpdated now' s (Some m') = [])"
proof (intro conjI impI)
  assume h: "p \<in> set DENTAL_MEASUREMENT_PRESETS
      \<and> dentalPresetId (metadata m) = Some (preset_id p)
      \<and> dentalPresetLabel (metadata m) = Some (preset_label p)
      \<and> dentalUnit (metadata m) = Some (unit p)
      \<and> dentalValue (metadata m) = computeMeasurementValue p (Some m)
      \<and> dentalValue (metadata m) \<noteq> Defined NaN
      \<and> dentalTooth (metadata m) = nullish (dentalTooth (metadata m)) (activeTooth s)
      \<and> label m = Some (labelSuffixOf p (metadata m))"
  let ?nm = "nextMetadataOf now s p m"
  from h have ne: "preset_id p \<noteq> []" using preset_in_table by blast
  from h ne show has: "measurementHasDentalMetadata m"
    by (simp add: measurementHasDentalMetadata_def truthy_def)
  from h have fp: "findPreset (dentalPresetId (metadata m)) = Some p"
    by (simp add: findPreset_by_own_id)
  from h have number: "computeMeasurementValue p (Some m) \<noteq> Defined NaN"
    by auto
  from h have eqs: "dentalPresetId (metadata m) = Some (preset_id p)"
    "dentalPresetLabel (metadata m) = Some (preset_label p)"
    "dentalUnit (metadata m) = Some (unit p)"
    "computeMeasurementValue p (Some m) = dentalValue (metadata m)"
    "nullish (dentalTooth (metadata m)) (activeTooth s) = dentalTooth (metadata m)"
    by simp_all
  from h have same: "\<not> metadataChanged (metadata m) ?nm"
    unfolding metadataChanged_def strictNe_def nextMetadataOf_keeps Let_def eqs
    by simp
  from h have "dentalTooth ?nm = dentalTooth (metadata m)"
    by (simp add: nextMetadataOf_keeps)
  then have lbl: "labelSuffixOf p ?nm = labelSuffixOf p (metadata m)"
    by (simp add: labelSuffixOf_def)
  from h same lbl have "applyDentalMetadata now s (Some m) (Some p) = []"
    by (simp add: applyDentalMetadata_def presetToApply_def Let_def)
  with has fp show "handleMeasurementUpdated now s (Some m) = []"
    by (simp add: handleMeasurementUpdated_def)
next
  assume a: "MeasurementUpdate u m' \<in> set (handleMeasurementAdded now s mo)
           \<union> set (handleMeasurementUpdated now s mo)
        \<and> dentalValue (metadata m') \<noteq> Defined NaN"
  then obtain preset where
    e: "MeasurementUpdate u m' \<in> set (applyDentalMetadata now s mo preset)"
    and tab: "\<forall>q. preset = Some q \<longrightarrow> q \<in> set DENTAL_MEASUREMENT_PRESETS"
    by (auto simp: handleMeasurementAdded_def handleMeasurementUpdated_def
        split: option.splits if_splits dest: findPreset_in_table)
  from applyDentalMetadata_effects [OF e] obtain m p where
    mo: "mo = Some m" and pa: "presetToApply s m preset = Some p"
    and m': "m' = m \<lparr> label := Some (labelSuffixOf p (nextMetadataOf now s p m)),
                      metadata := nextMetadataOf now s p m \<rparr>"
    by auto
  have p: "p \<in> set DENTAL_MEASUREMENT_PRESETS"
    using pa tab unfolding presetToApply_def
    by (cases preset) (auto dest: find_in_table)
  then have "preset_id p \<noteq> []" using preset_in_table by blast
  then show "measurementHasDentalMetadata m'"
    by (simp add: m' measurementHasDentalMetadata_def truthy_def nextMetadataOf_keeps)
  from a have number: "computeMeasurementValue p (Some m) \<noteq> Defined NaN"
    by (simp add: m' nextMetadataOf_keeps)
  show "handleMeasurementUpdated now' s (Some m') = []"
    unfolding m' using p number by (rule updated_on_enriched)
qed

lemma exchange_silent:
  "handleMeasurementUpdated now s (Some m) = [] \<Longrightarrow> exchange k now s m = []"
  by (cases k) simp_all

lemma enrichment_silent_example:
  "measurementHasDentalMetadata enrichedMeasurement
   \<and> handleMeasurementUpdated 2000 activeState (Some enrichedMeasurement) = []
   \<and> exchange 50 2000 activeState enrichedMeasurement = []"
proof -
  have "measurementHasDentalMetadata enrichedMeasurement
        \<and> handleMeasurementUpdated 2000 activeState (Some enrichedMeasurement) = []"
    using enrichment_silent_without_nan [where p = periapicalPreset and m = enrichedMeasurement
            and s = activeState and u = "''m1''" and m' = enrichedMeasurement
            and now = 1000 and mo = "Some rawMeasurement" and now' = 2000]
          periapicalPreset_in_table enriched_example_unchanged
    by (simp add: handleMeasurementAdded_example enrichedMeasurement_def)
  then show ?thesis by (simp add: exchange_silent)
qed

text \<open>
  A tagged measurement whose computed value is \<^verbatim>\<open>NaN\<close> gets an update from the
  measurement-updated handler whatever its metadata holds, since \<^verbatim>\<open>NaN !== NaN\<close>.
\<close>

lemma nan_value_always_updates:
  assumes "getMeasurementService s" and "p \<in> set DENTAL_MEASUREMENT_PRESETS"
    and "dentalPresetId (metadata m) = Some (preset_id p)"
    and "dentalValue (metadata m) = Defined NaN"
  shows "handleMeasurementUpdated now s (Some m)
           = [MeasurementUpdate (uid m)
                (m \<lparr> label := Some (labelSuffixOf p (nextMetadataOf now s p m)),
                     metadata := nextMetadataOf now s p m \<rparr>)]"
proof -
  from assms(2) have ne: "preset_id p \<noteq> []" using preset_in_table by blast
  with assms(3) have has: "measurementHasDentalMetadata m"
    by (simp add: measurementHasDentalMetadata_def truthy_def)
  from assms(2,3) have fp: "findPreset (dentalPresetId (metadata m)) = Some p"
    by (simp add: findPreset_by_own_id)
  have "metadataChanged (metadata m) (nextMetadataOf now s p m)"
    using assms(4) by (rule metadataChanged_nan)
  then show ?thesis
    using assms(1) has fp
    by (simp add: handleMeasurementUpdated_def applyDentalMetadata_def presetToApply_def Let_def)
qed

text \<open>
  C1. The measurement \<open>nanMeasurement\<close> carries dental metadata and is unchanged: its
  preset id, preset label, unit, value, tooth and label are the ones the enricher
  computes for it, the value being \<^verbatim>\<open>NaN\<close>. The measurement-updated handler
  nevertheless issues an update for it, and the update carries the same measurement
  again, so that the notification the host re-emits for the update makes the handler
  issue the same update once more: the exchange has an update at every round, as many
  updates as it is given rounds.
\<close>

theorem nan_value_update_repeats:
  "measurementHasDentalMetadata nanMeasurement
   \<and> dentalPresetId (metadata nanMeasurement) = Some (preset_id periapicalPreset)
   \<and> dentalPresetLabel (metadata nanMeasurement) = Some (preset_label periapicalPreset)
   \<and> dentalUnit (metadata nanMeasurement) = Some (unit periapicalPreset)
   \<and> dentalValue (metadata nanMeasurement)
       = computeMeasurementValue periapicalPreset (Some nanMeasurement)
   \<and> dentalTooth (metadata nanMeasurement) = activeTooth activeState
   \<and> label nanMeasurement
       = Some (labelSuffixOf periapicalPreset (metadata nanMeasurement))
   \<and> handleMeasurementUpdated now activeState (Some nanMeasurement)
       = [MeasurementUpdate ''m1'' nanMeasurement]
   \<and> exchange k now activeState nanMeasurement
       = replicate k (MeasurementUpdate ''m1'' nanMeasurement)"
proof -
  have facts: "dentalPresetId (metadata nanMeasurement) = Some (preset_id periapicalPreset)"
    "dentalPresetLabel (metadata nanMeasurement) = Some (preset_label periapicalPreset)"
    "dentalUnit (metadata nanMeasurement) = Some (unit periapicalPreset)"
    "dentalValue (metadata nanMeasurement) = Defined NaN"
    "computeMeasurementValue periapicalPreset (Some nanMeasurement) = Defined NaN"
    "dentalTooth (metadata nanMeasurement) = activeTooth activeState"
    "label nanMeasurement = Some (labelSuffixOf periapicalPreset (metadata nanMeasurement))"
    "uid nanMeasurement = ''m1''"
    by (simp_all add: nanMeasurement_def periapicalPreset_def emptyMetadata_def tooth11_def
        activeState_def computeMeasurementValue_def angleLike_def degreeSign_def coalesce_def
        labelSuffixOf_def)
  have has: "measurementHasDentalMetadata nanMeasurement"
    by (simp add: measurementHasDentalMetadata_def truthy_def nanMeasurement_def
        emptyMetadata_def)
  have service: "getMeasurementService activeState"
    by (simp add: getMeasurementService_def activeState_def hostServices_def)
  let ?nm = "nextMetadataOf now activeState periapicalPreset nanMeasurement"
  have nm: "?nm = metadata nanMeasurement"
    by (simp add: nextMetadataOf_def computeMeasurementValue_def angleLike_def degreeSign_def
        coalesce_def nullish_def nanMeasurement_def periapicalPreset_def emptyMetadata_def
        activeState_def tooth11_def Let_def)
  have "handleMeasurementUpdated now activeState (Some nanMeasurement)
          = [MeasurementUpdate (uid nanMeasurement)
               (nanMeasurement \<lparr> label := Some (labelSuffixOf periapicalPreset ?nm),
                                 metadata := ?nm \<rparr>)]"
    using service periapicalPreset_in_table facts(1,4) by (rule nan_value_always_updates)
  also have "\<dots> = [MeasurementUpdate ''m1'' nanMeasurement]"
    unfolding nm using facts(7,8) by simp
  finally have again: "handleMeasurementUpdated now activeState (Some nanMeasurement)
                         = [MeasurementUpdate ''m1'' nanMeasurement]" .
  then have "exchange k now activeState nanMeasurement
               = replicate k (MeasurementUpdate ''m1'' nanMeasurement)"
    by (induction k) simp_all
  with again show ?thesis
    using has facts by simp
qed

subsection \<open>Enrichment of an added measurement\<close>

text \<open>
  C2. With a measurement service available, the active preset
  \<^verbatim>\<open>periapical-length\<close> and the active tooth FDI 11, the measurement-added handler
  issues exactly one update for a measurement that has no tooth in its metadata; the
  updated measurement has the label \<^verbatim>\<open>PA length (FDI 11)\<close>, the preset id
  \<^verbatim>\<open>periapical-length\<close>, the preset label, the unit, the value computed for the preset
  and the active tooth.
\<close>

theorem added_measurement_is_labelled:
  assumes "getMeasurementService s"
    and "activePresetId s = Some ''periapical-length''"
    and "activeTooth s = Some \<lparr> tooth_system = FDI, tooth_value = ''11'' \<rparr>"
    and "dentalTooth (metadata m) = None"
  shows "\<exists>m'. handleMeasurementAdded now s (Some m) = [MeasurementUpdate (uid m) m']
         \<and> label m' = Some ''PA length (FDI 11)''
         \<and> dentalPresetId (metadata m') = Some ''periapical-length''
         \<and> dentalPresetLabel (metadata m') = Some ''PA length''
         \<and> dentalUnit (metadata m') = Some ''mm''
         \<and> dentalValue (metadata m') = computeMeasurementValue periapicalPreset (Some m)
         \<and> dentalTooth (metadata m') = Some \<lparr> tooth_system = FDI, tooth_value = ''11'' \<rparr>"
proof -
  have fp: "findPreset (Some ''periapical-length'') = Some periapicalPreset"
    using findPreset_by_own_id [OF periapicalPreset_in_table]
    by (simp add: periapicalPreset_def)
  let ?nm = "nextMetadataOf now s periapicalPreset m"
  have tooth: "dentalTooth ?nm = Some \<lparr> tooth_system = FDI, tooth_value = ''11'' \<rparr>"
    using assms by (simp add: nextMetadataOf_keeps nullish_def)
  have changed: "metadataChanged (metadata m) ?nm"
    using assms(4) tooth by (simp add: metadataChanged_def Let_def)
  have lbl: "labelSuffixOf periapicalPreset ?nm = ''PA length (FDI 11)''"
    unfolding labelSuffixOf_def tooth by (simp add: periapicalPreset_def)
  have "handleMeasurementAdded now s (Some m)
          = [MeasurementUpdate (uid m)
               (m \<lparr> label := Some ''PA length (FDI 11)'', metadata := ?nm \<rparr>)]"
    using assms(1,2) changed
    by (simp add: handleMeasurementAdded_def truthy_def fp applyDentalMetadata_def
        presetToApply_def lbl Let_def)
  moreover have "dentalPresetId ?nm = Some ''periapical-length''"
    "dentalPresetLabel ?nm = Some ''PA length''" "dentalUnit ?nm = Some ''mm''"
    "dentalValue ?nm = computeMeasurementValue periapicalPreset (Some m)"
    by (simp_all add: nextMetadataOf_keeps periapicalPreset_def)
  ultimately show ?thesis using tooth by simp
qed

theorem added_measurement_is_labelled_witness:
  "getMeasurementService activeState
   \<and> (\<exists>m'. handleMeasurementAdded 1000 activeState (Some rawMeasurement)
              = [MeasurementUpdate (uid rawMeasurement) m']
         \<and> label m' = Some ''PA length (FDI 11)''
         \<and> dentalPresetId (metadata m') = Some ''periapical-length''
         \<and> dentalValue (metadata m') = Defined (Num 15.5))"
proof -
  have a: "getMeasurementService activeState"
    by (simp add: getMeasurementService_def activeState_def hostServices_def)
  have b: "activePresetId activeState = Some ''periapical-length''"
    by (simp add: activeState_def)
  have c: "activeTooth activeState = Some \<lparr> tooth_system = FDI, tooth_value = ''11'' \<rparr>"
    by (simp add: activeState_def tooth11_def)
  have d: "dentalTooth (metadata rawMeasurement) = None"
    by (simp add: rawMeasurement_def emptyMetadata_def)
  have v: "computeMeasurementValue periapicalPreset (Some rawMeasurement) = Defined (Num 15.5)"
    by (simp add: computeMeasurementValue_def periapicalPreset_def rawMeasurement_def
        angleLike_def degreeSign_def coalesce_def)
  show ?thesis
    using a added_measurement_is_labelled [OF a b c d, of 1000] by (auto simp: v)
qed

subsection \<open>Teardown, preset selection and the cleared event\<close>

text \<open>
  The state of a session that initializes, selects tooth FDI 21 and then the preset
  \<^verbatim>\<open>periapical-length\<close>.
\<close>

lemma workflowState_reached:
  "fst (selectDentalMeasurementPreset ''periapical-length''
         (setActiveDentalTooth (Some \<lparr> tooth_system = FDI, tooth_value = ''21'' \<rparr>)
            (fst (initializeDentalMeasurements ''u1'' hostServices initialState))))
   = workflowState"
  by (simp add: workflowState_def selectDentalMeasurementPreset_def
      initializeDentalMeasurements_def setActiveDentalTooth_def
      clearSubscriptions_def listenerId_def hostServices_def initialState_def findPreset_def
      DENTAL_MEASUREMENT_PRESETS_def Let_def)

text \<open>
  C5. Teardown and the active tooth. Tearing down the session state above releases
  its three subscriptions and clears the integration context and the active preset,
  but the active tooth is still FDI 21: teardown never assigns the active tooth.
\<close>

theorem teardown_keeps_active_tooth:
  "getActiveDentalPresetId (fst (teardownDentalMeasurements workflowState)) = None
   \<and> subscriptions (fst (teardownDentalMeasurements workflowState)) = []
   \<and> integration (fst (teardownDentalMeasurements workflowState)) = None
   \<and> snd (teardownDentalMeasurements workflowState)
       = map Unsubscribe (subscriptions workflowState)
   \<and> getActiveDentalTooth (fst (teardownDentalMeasurements workflowState))
       = Some \<lparr> tooth_system = FDI, tooth_value = ''21'' \<rparr>"
  by (simp add: teardownDentalMeasurements_def getActiveDentalTooth_def
      getActiveDentalPresetId_def clearSubscriptions_def workflowState_def)

text \<open>
  C6. Selecting a preset stores the id as the active preset, whatever the id; a
  \<^verbatim>\<open>setToolActive\<close> command is issued exactly when the id is the id of a preset of the
  table and the integration context is set; for an id that is not in the table the
  only change is the stored id and nothing is sent to the host.
\<close>

theorem selectPreset_stores_id_and_activates_known:
  "getActiveDentalPresetId (fst (selectDentalMeasurementPreset presetId s)) = Some presetId
   \<and> ((\<exists>tool groups. RunCommand ''setToolActive'' tool groups ''CORNERSTONE''
            \<in> set (snd (selectDentalMeasurementPreset presetId s)))
        \<longleftrightarrow> (presetId \<in> set (map preset_id DENTAL_MEASUREMENT_PRESETS)
               \<and> integration s \<noteq> None))
   \<and> (presetId \<notin> set (map preset_id DENTAL_MEASUREMENT_PRESETS)
        \<longrightarrow> selectDentalMeasurementPreset presetId s
              = (s \<lparr> activePresetId := Some presetId \<rparr>, []))"
proof -
  have known: "(findPreset (Some presetId) \<noteq> None)
                 = (presetId \<in> set (map preset_id DENTAL_MEASUREMENT_PRESETS))"
    using findPreset_Some_iff [of presetId] by auto
  show ?thesis
    using known
    by (cases "findPreset (Some presetId)"; cases "integration s")
       (auto simp: selectDentalMeasurementPreset_def getActiveDentalPresetId_def Let_def)
qed

theorem selectPreset_witness:
  "''invalid-preset'' \<notin> set (map preset_id DENTAL_MEASUREMENT_PRESETS)
   \<and> selectDentalMeasurementPreset ''invalid-preset'' initialState
       = (initialState \<lparr> activePresetId := Some ''invalid-preset'' \<rparr>, [])
   \<and> getActiveDentalPresetId (fst (selectDentalMeasurementPreset ''invalid-preset'' initialState))
       = Some ''invalid-preset''"
  using selectPreset_stores_id_and_activates_known [of "''invalid-preset''" initialState]
  by (auto simp: preset_ids)

lemma select_known_example:
  "selectDentalMeasurementPreset ''canal-angle''
     (fst (initializeDentalMeasurements ''u1'' hostServices initialState))
   = (\<lparr> integration = Some hostServices, activePresetId = Some ''canal-angle'',
        activeTooth = None,
        subscriptions =
          [\<lparr> sub_event = MEASUREMENT_ADDED, sub_listener = ''dental-measurements-u1'' \<rparr>,
           \<lparr> sub_event = MEASUREMENT_UPDATED, sub_listener = ''dental-measurements-u1'' \<rparr>,
           \<lparr> sub_event = MEASUREMENTS_CLEARED, sub_listener = ''dental-measurements-u1'' \<rparr>],
        lastInitializationId = Some ''dental-measurements-u1'' \<rparr>,
      [RunCommand ''setToolActive'' ''Angle'' [''dental''] ''CORNERSTONE''])"
  by (simp add: selectDentalMeasurementPreset_def initializeDentalMeasurements_def
      clearSubscriptions_def listenerId_def hostServices_def initialState_def findPreset_def
      DENTAL_MEASUREMENT_PRESETS_def Let_def)

text \<open>
  C10. The cleared-handler of the initialization whose listener id is the last one
  recorded sets the active preset to null and changes nothing else: the active tooth
  and the integration context are as before. A cleared-handler whose listener id is not
  the last one recorded leaves the state as it is. An initialization that passes its
  checks records its own listener id and subscribes its cleared-handler, so the handler
  of an initialization with another uuid does nothing afterwards.
\<close>

theorem cleared_handler_resets_preset_only:
  "(lastInitializationId s = Some (listenerId uuid) \<longrightarrow>
      measurementsClearedHandler (listenerId uuid) s = s \<lparr> activePresetId := None \<rparr>
      \<and> getActiveDentalPresetId (measurementsClearedHandler (listenerId uuid) s) = None
      \<and> getActiveDentalTooth (measurementsClearedHandler (listenerId uuid) s)
          = getActiveDentalTooth s
      \<and> integration (measurementsClearedHandler (listenerId uuid) s) = integration s)
   \<and> (lastInitializationId s \<noteq> Some (listenerId uuid) \<longrightarrow>
        measurementsClearedHandler (listenerId uuid) s = s)
   \<and> (measurementService args \<and> commandsManager args \<longrightarrow>
        lastInitializationId (fst (initializeDentalMeasurements uuid args s))
          = Some (listenerId uuid)
        \<and> \<lparr> sub_event = MEASUREMENTS_CLEARED, sub_listener = listenerId uuid \<rparr>
            \<in> set (subscriptions (fst (initializeDentalMeasurements uuid args s)))
        \<and> (uuid' \<noteq> uuid \<longrightarrow>
             measurementsClearedHandler (listenerId uuid')
               (fst (initializeDentalMeasurements uuid args s))
             = fst (initializeDentalMeasurements uuid args s)))"
  by (simp add: measurementsClearedHandler_def getActiveDentalPresetId_def
      getActiveDentalTooth_def initializeDentalMeasurements_def clearSubscriptions_def
      listenerId_def Let_def)

lemma sessionState_eq:
  "sessionState =
     \<lparr> integration = Some hostServices, activePresetId = Some ''canal-angle'',
       activeTooth = Some tooth11,
       subscriptions =
         [\<lparr> sub_event = MEASUREMENT_ADDED, sub_listener = ''dental-measurements-u1'' \<rparr>,
          \<lparr> sub_event = MEASUREMENT_UPDATED, sub_listener = ''dental-measurements-u1'' \<rparr>,
          \<lparr> sub_event = MEASUREMENTS_CLEARED, sub_listener = ''dental-measurements-u1'' \<rparr>],
       lastInitializationId = Some ''dental-measurements-u1'' \<rparr>"
  by (simp add: sessionState_def selectDentalMeasurementPreset_def
      initializeDentalMeasurements_def setActiveDentalTooth_def
      clearSubscriptions_def listenerId_def hostServices_def initialState_def findPreset_def
      DENTAL_MEASUREMENT_PRESETS_def Let_def)

theorem cleared_handler_witness:
  "lastInitializationId sessionState = Some (listenerId ''u1'')
   \<and> getActiveDentalPresetId sessionState = Some ''canal-angle''
   \<and> getActiveDentalPresetId (measurementsClearedHandler (listenerId ''u1'') sessionState) = None
   \<and> getActiveDentalTooth (measurementsClearedHandler (listenerId ''u1'') sessionState)
       = Some tooth11
   \<and> lastInitializationId sessionState \<noteq> Some (listenerId ''u0'')
   \<and> measurementsClearedHandler (listenerId ''u0'') sessionState = sessionState
   \<and> measurementService hostServices \<and> commandsManager hostServices
   \<and> lastInitializationId (fst (initializeDentalMeasurements ''u2'' hostServices sessionState))
       = Some (listenerId ''u2'')
   \<and> measurementsClearedHandler (listenerId ''u1'')
        (fst (initializeDentalMeasurements ''u2'' hostServices sessionState))
       = fst (initializeDentalMeasurements ''u2'' hostServices sessionState)"
proof -
  have l: "lastInitializationId sessionState = Some (listenerId ''u1'')"
    by (simp add: sessionState_eq listenerId_def)
  have n: "lastInitializationId sessionState \<noteq> Some (listenerId ''u0'')"
    by (simp add: sessionState_eq listenerId_def)
  have h: "measurementService hostServices \<and> commandsManager hostServices"
    by (simp add: hostServices_def)
  have g: "getActiveDentalPresetId sessionState = Some ''canal-angle''"
    "getActiveDentalTooth sessionState = Some tooth11"
    by (simp_all add: sessionState_eq getActiveDentalPresetId_def getActiveDentalTooth_def)
  show ?thesis
    using l n h g
      cleared_handler_resets_preset_only [where s = sessionState and uuid = "''u1''"
        and args = hostServices and uuid' = "''u1''"]
      cleared_handler_resets_preset_only [where s = sessionState and uuid = "''u0''"
        and args = hostServices and uuid' = "''u0''"]
      cleared_handler_resets_preset_only [where s = sessionState and uuid = "''u2''"
        and args = hostServices and uuid' = "''u1''"]
    by (simp add: getActiveDentalPresetId_def getActiveDentalTooth_def)
qed

section \<open>Properties of the export\<close>



section \<open>Properties of the re-scan\<close>

lemma findPreset_literal:
  "findPreset (Some ''periapical-length'') = Some (DENTAL_MEASUREMENT_PRESETS ! 0)"
  "findPreset (Some ''canal-angle'') = Some (DENTAL_MEASUREMENT_PRESETS ! 1)"
  "findPreset (Some ''crown-width'') = Some (DENTAL_MEASUREMENT_PRESETS ! 2)"
  "findPreset (Some ''root-length'') = Some (DENTAL_MEASUREMENT_PRESETS ! 3)"
  by (simp_all add: findPreset_def DENTAL_MEASUREMENT_PRESETS_def)

lemma preset_label_list:
  "map preset_label DENTAL_MEASUREMENT_PRESETS
     = [''PA length'', ''Canal angle'', ''Crown width'', ''Root length'']"
  by (simp add: DENTAL_MEASUREMENT_PRESETS_def)

lemma matchesPresetLabel_iff:
  "matchesPresetLabel m \<longleftrightarrow>
     regexTestCI ''PA length'' (labelText m) \<or> regexTestCI ''Canal angle'' (labelText m)
     \<or> regexTestCI ''Crown width'' (labelText m) \<or> regexTestCI ''Root length'' (labelText m)"
  (is "?l \<longleftrightarrow> ?r")
proof
  assume ?l
  then obtain p where p: "p \<in> set DENTAL_MEASUREMENT_PRESETS"
    and t: "regexTestCI (preset_label p) (labelText m)"
    by (auto simp: matchesPresetLabel_def)
  from p have "preset_label p \<in> set (map preset_label DENTAL_MEASUREMENT_PRESETS)"
    by simp
  then have "preset_label p \<in> {''PA length'', ''Canal angle'', ''Crown width'', ''Root length''}"
    unfolding preset_label_list by simp
  with t show ?r by auto
next
  have "\<forall>l \<in> set (map preset_label DENTAL_MEASUREMENT_PRESETS).
          \<exists>p \<in> set DENTAL_MEASUREMENT_PRESETS. preset_label p = l"
    by auto
  then have known: "\<forall>l \<in> {''PA length'', ''Canal angle'', ''Crown width'', ''Root length''}.
          \<exists>p \<in> set DENTAL_MEASUREMENT_PRESETS. preset_label p = l"
    unfolding preset_label_list by simp
  assume ?r
  then obtain l where l: "l \<in> {''PA length'', ''Canal angle'', ''Crown width'', ''Root length''}"
    and t: "regexTestCI l (labelText m)"
    by blast
  from known l have "\<exists>p \<in> set DENTAL_MEASUREMENT_PRESETS. preset_label p = l"
    by (rule bspec)
  then obtain p where "p \<in> set DENTAL_MEASUREMENT_PRESETS" and "preset_label p = l" ..
  with t show ?l
    unfolding matchesPresetLabel_def by (intro bexI [of _ p]) simp_all
qed

lemma enhanceMeasurement_effect:
  assumes "e \<in> set (enhanceMeasurement now m)"
  shows "\<not> measurementHasDentalMetadata m \<and> matchesPresetLabel m
         \<and> (\<exists>md. e = MeasurementUpdate (uid m) (m \<lparr> metadata := md \<rparr>))"
proof -
  from assms have untagged: "\<not> measurementHasDentalMetadata m"
    by (auto simp: enhanceMeasurement_def split: if_splits)
  from assms untagged have "matchesPresetLabel m"
    unfolding matchesPresetLabel_iff
    by (auto simp: enhanceMeasurement_def labelText_def Let_def split: if_splits)
  moreover from assms untagged have "\<exists>md. e = MeasurementUpdate (uid m) (m \<lparr> metadata := md \<rparr>)"
    by (auto simp: enhanceMeasurement_def Let_def split: if_splits option.splits)
  ultimately show ?thesis using untagged by simp
qed

lemma enhanceMeasurement_matching:
  assumes "\<not> measurementHasDentalMetadata m" and "matchesPresetLabel m"
  shows "\<exists>md. enhanceMeasurement now m = [MeasurementUpdate (uid m) (m \<lparr> metadata := md \<rparr>)]"
  using assms unfolding matchesPresetLabel_iff
  by (auto simp: enhanceMeasurement_def labelText_def findPreset_literal Let_def)

lemma scannedLabel_matches:
  "regexTestCI ''PA length'' scannedLabel"
  "matchTooth ''(FDI '' scannedLabel = Some ''26''"
  by code_simp+

lemma scanned_example:
  "enhanceMeasurement 5 scannedMeasurement =
     [MeasurementUpdate ''m2''
        (scannedMeasurement \<lparr> metadata := emptyMetadata
           \<lparr> dentalPresetId := Some ''periapical-length'', dentalPresetLabel := Some ''PA length'',
             dentalUnit := Some ''mm'', dentalValue := Defined (Num 9),
             dentalCreatedAt := Some 5,
             dentalTooth := Some \<lparr> tooth_system = FDI, tooth_value = ''26'' \<rparr> \<rparr> \<rparr>)]"
proof -
  have untagged: "\<not> measurementHasDentalMetadata scannedMeasurement"
    by (simp add: measurementHasDentalMetadata_def truthy_def scannedMeasurement_def
        emptyMetadata_def)
  have lbl: "label scannedMeasurement = Some scannedLabel"
    and u: "uid scannedMeasurement = ''m2''"
    and md: "metadata scannedMeasurement = emptyMetadata"
    by (simp_all add: scannedMeasurement_def)
  have v: "computeMeasurementValue (DENTAL_MEASUREMENT_PRESETS ! 0) (Some scannedMeasurement)
             = Defined (Num 9)"
    by (simp add: computeMeasurementValue_def scannedMeasurement_def angleLike_def
        degreeSign_def coalesce_def DENTAL_MEASUREMENT_PRESETS_def)
  have p: "preset_id (DENTAL_MEASUREMENT_PRESETS ! 0) = ''periapical-length''"
    "preset_label (DENTAL_MEASUREMENT_PRESETS ! 0) = ''PA length''"
    "unit (DENTAL_MEASUREMENT_PRESETS ! 0) = ''mm''"
    by (simp_all add: DENTAL_MEASUREMENT_PRESETS_def)
  show ?thesis
    unfolding enhanceMeasurement_def
    by (simp add: untagged lbl u md scannedLabel_matches findPreset_literal v p
        emptyMetadata_def nullish_def Let_def)
qed

lemma enhance_set:
  "set (enhanceExistingMeasurements now s ms)
     = (if getMeasurementService s then (\<Union>m \<in> set ms. set (enhanceMeasurement now m)) else {})"
  by (simp add: enhanceExistingMeasurements_def)

lemma enhance_tagged_nil:
  "measurementHasDentalMetadata m \<Longrightarrow> enhanceMeasurement now m = []"
  by (simp add: enhanceMeasurement_def)

lemma concat_map_filter_nil:
  "(\<And>x. x \<in> set xs \<Longrightarrow> \<not> P x \<Longrightarrow> f x = []) \<Longrightarrow>
   concat (map f (filter P xs)) = concat (map f xs)"
  by (induction xs) auto

text \<open>
  C9. Every update that the re-scan issues is for a measurement of the list that has
  no dental metadata and whose label matches the label of a preset of the table, and it
  changes the metadata only (the label stays). A measurement with dental metadata
  contributes no update: the re-scan does the same as on the list without the tagged
  measurements, and when the uids of the list are distinct no update bears the uid of
  a tagged measurement. With a measurement service, every untagged measurement with a
  matching label does get its update.
\<close>

theorem rescan_leaves_tagged_untouched:
  "(\<forall>e \<in> set (enhanceExistingMeasurements now s ms).
      \<exists>m \<in> set ms. \<not> measurementHasDentalMetadata m \<and> matchesPresetLabel m
        \<and> (\<exists>md. e = MeasurementUpdate (uid m) (m \<lparr> metadata := md \<rparr>)))
   \<and> (\<forall>m \<in> set ms. measurementHasDentalMetadata m \<longrightarrow> enhanceMeasurement now m = [])
   \<and> enhanceExistingMeasurements now s ms
       = enhanceExistingMeasurements now s
           (filter (\<lambda>m. \<not> measurementHasDentalMetadata m) ms)
   \<and> (distinct (map uid ms) \<longrightarrow>
        (\<forall>m \<in> set ms. measurementHasDentalMetadata m \<longrightarrow>
           (\<forall>m'. MeasurementUpdate (uid m) m' \<notin> set (enhanceExistingMeasurements now s ms))))
   \<and> (getMeasurementService s \<longrightarrow>
        (\<forall>m \<in> set ms. \<not> measurementHasDentalMetadata m \<and> matchesPresetLabel m \<longrightarrow>
           (\<exists>md. MeasurementUpdate (uid m) (m \<lparr> metadata := md \<rparr>)
                   \<in> set (enhanceExistingMeasurements now s ms))))"
proof (intro conjI)
  show only: "\<forall>e \<in> set (enhanceExistingMeasurements now s ms).
      \<exists>m \<in> set ms. \<not> measurementHasDentalMetadata m \<and> matchesPresetLabel m
        \<and> (\<exists>md. e = MeasurementUpdate (uid m) (m \<lparr> metadata := md \<rparr>))"
    by (auto simp: enhance_set split: if_splits dest: enhanceMeasurement_effect)
  show "\<forall>m \<in> set ms. measurementHasDentalMetadata m \<longrightarrow> enhanceMeasurement now m = []"
    by (simp add: enhance_tagged_nil)
  show "enhanceExistingMeasurements now s ms
       = enhanceExistingMeasurements now s
           (filter (\<lambda>m. \<not> measurementHasDentalMetadata m) ms)"
  proof -
    have "concat (map (enhanceMeasurement now)
                   (filter (\<lambda>m. \<not> measurementHasDentalMetadata m) ms))
            = concat (map (enhanceMeasurement now) ms)"
      by (rule concat_map_filter_nil) (simp add: enhance_tagged_nil)
    then show ?thesis
      by (simp add: enhanceExistingMeasurements_def)
  qed
  show "distinct (map uid ms) \<longrightarrow>
        (\<forall>m \<in> set ms. measurementHasDentalMetadata m \<longrightarrow>
           (\<forall>m'. MeasurementUpdate (uid m) m' \<notin> set (enhanceExistingMeasurements now s ms)))"
  proof (intro impI ballI allI notI)
    fix m m'
    assume d: "distinct (map uid ms)" and m: "m \<in> set ms"
      and tagged: "measurementHasDentalMetadata m"
      and e: "MeasurementUpdate (uid m) m' \<in> set (enhanceExistingMeasurements now s ms)"
    from only e obtain n where n: "n \<in> set ms" and un: "\<not> measurementHasDentalMetadata n"
      and "uid n = uid m"
      by fastforce
    with d m have "n = m" by (simp add: distinct_map inj_on_def)
    with un tagged show False by simp
  qed
  show "getMeasurementService s \<longrightarrow>
        (\<forall>m \<in> set ms. \<not> measurementHasDentalMetadata m \<and> matchesPresetLabel m \<longrightarrow>
           (\<exists>md. MeasurementUpdate (uid m) (m \<lparr> metadata := md \<rparr>)
                   \<in> set (enhanceExistingMeasurements now s ms)))"
  proof (intro impI ballI)
    fix m
    assume s: "getMeasurementService s" and m: "m \<in> set ms"
      and h: "\<not> measurementHasDentalMetadata m \<and> matchesPresetLabel m"
    from h obtain md where
      "enhanceMeasurement now m = [MeasurementUpdate (uid m) (m \<lparr> metadata := md \<rparr>)]"
      using enhanceMeasurement_matching by blast
    then have "MeasurementUpdate (uid m) (m \<lparr> metadata := md \<rparr>) \<in> set (enhanceMeasurement now m)"
      by simp
    with s m show "\<exists>md. MeasurementUpdate (uid m) (m \<lparr> metadata := md \<rparr>)
                   \<in> set (enhanceExistingMeasurements now s ms)"
      unfolding enhance_set by auto
  qed
qed

theorem rescan_witness:
  "measurementHasDentalMetadata enrichedMeasurement
   \<and> enrichedMeasurement \<in> set [enrichedMeasurement, scannedMeasurement]
   \<and> distinct (map uid [enrichedMeasurement, scannedMeasurement])
   \<and> enhanceMeasurement 5 enrichedMeasurement = []
   \<and> enhanceExistingMeasurements 5 activeState [enrichedMeasurement, scannedMeasurement]
       = enhanceMeasurement 5 scannedMeasurement
   \<and> MeasurementUpdate (uid enrichedMeasurement) enrichedMeasurement
       \<notin> set (enhanceExistingMeasurements 5 activeState [enrichedMeasurement, scannedMeasurement])"
proof -
  have t: "measurementHasDentalMetadata enrichedMeasurement"
    by (simp add: measurementHasDentalMetadata_def truthy_def enrichedMeasurement_def
        emptyMetadata_def)
  have u: "\<not> measurementHasDentalMetadata scannedMeasurement"
    by (simp add: measurementHasDentalMetadata_def truthy_def scannedMeasurement_def
        emptyMetadata_def)
  have d: "distinct (map uid [enrichedMeasurement, scannedMeasurement])"
    by (simp add: enrichedMeasurement_def rawMeasurement_def scannedMeasurement_def)
  have g: "getMeasurementService activeState"
    by (simp add: getMeasurementService_def activeState_def hostServices_def)
  show ?thesis
    using t u d g
      rescan_leaves_tagged_untouched [of 5 activeState "[enrichedMeasurement, scannedMeasurement]"]
    by (simp add: enhanceExistingMeasurements_def)
qed

section \<open>Properties of the annotation routes\<close>

lemma find_unique_key:
  "distinct (map f xs) \<Longrightarrow> x \<in> set xs \<Longrightarrow> List.find (\<lambda>y. f y = f x) xs = Some x"
  by (induction xs) (auto simp: rev_image_eqI)

lemma canAccess_owner: "canAccess a (ann_userId a) permission"
  by (simp add: canAccess_def)

lemma canAccess_private: "isPrivate a \<Longrightarrow> u \<noteq> ann_userId a \<Longrightarrow> \<not> canAccess a u permission"
  by (auto simp: canAccess_def)

lemma any_grant:
  "(\<exists>e \<in> set (sharedWith a). share_userId e = u)
     \<longleftrightarrow> holdsGrant a u ReadPermission \<or> holdsGrant a u WritePermission"
proof
  assume "\<exists>e \<in> set (sharedWith a). share_userId e = u"
  then obtain e where e: "e \<in> set (sharedWith a)" "share_userId e = u" by blast
  show "holdsGrant a u ReadPermission \<or> holdsGrant a u WritePermission"
  proof (cases "share_permission e")
    case ReadPermission
    with e have "holdsGrant a u ReadPermission" unfolding holdsGrant_def by blast
    then show ?thesis ..
  next
    case WritePermission
    with e have "holdsGrant a u WritePermission" unfolding holdsGrant_def by blast
    then show ?thesis ..
  qed
next
  assume "holdsGrant a u ReadPermission \<or> holdsGrant a u WritePermission"
  then show "\<exists>e \<in> set (sharedWith a). share_userId e = u"
    unfolding holdsGrant_def by blast
qed

lemma canAccess_read_shared:
  assumes "\<not> isPrivate a" "u \<noteq> ann_userId a"
  shows "canAccess a u ReadPermission
           \<longleftrightarrow> holdsGrant a u ReadPermission \<or> holdsGrant a u WritePermission"
proof -
  have "(List.find (\<lambda>e. share_userId e = u) (sharedWith a) \<noteq> None)
          \<longleftrightarrow> (\<exists>e \<in> set (sharedWith a). share_userId e = u)"
    by (auto simp: find_None_iff)
  moreover have "canAccess a u ReadPermission
          \<longleftrightarrow> List.find (\<lambda>e. share_userId e = u) (sharedWith a) \<noteq> None"
    using assms by (simp add: canAccess_def split: option.splits)
  ultimately show ?thesis
    unfolding any_grant by simp
qed

lemma canAccess_write_shared:
  assumes "\<not> isPrivate a" "u \<noteq> ann_userId a" "distinct (map share_userId (sharedWith a))"
  shows "canAccess a u WritePermission \<longleftrightarrow> holdsGrant a u WritePermission"
proof
  assume "canAccess a u WritePermission"
  with assms(1,2) obtain e where
    "List.find (\<lambda>e. share_userId e = u) (sharedWith a) = Some e"
    "share_permission e = WritePermission"
    by (auto simp: canAccess_def split: option.splits)
  then show "holdsGrant a u WritePermission"
    unfolding holdsGrant_def by (auto simp: find_Some_iff)
next
  assume "holdsGrant a u WritePermission"
  then obtain e where e: "e \<in> set (sharedWith a)" "share_userId e = u"
    "share_permission e = WritePermission"
    by (auto simp: holdsGrant_def)
  with assms(3) have "List.find (\<lambda>y. share_userId y = share_userId e) (sharedWith a) = Some e"
    using find_unique_key by fast
  with e assms(1,2) show "canAccess a u WritePermission"
    by (simp add: canAccess_def)
qed

lemma get_status:
  "findById i anns = Some a \<Longrightarrow>
   res_status (getAnnotationRoute False idText anns u i) = (if canAccess a u ReadPermission then 200 else 403)"
proof -
  have "populateUsers idText a = a"
    by (simp add: populateUsers_def idText_def map_idI)
  then show "findById i anns = Some a \<Longrightarrow>
   res_status (getAnnotationRoute False idText anns u i)
     = (if canAccess a u ReadPermission then 200 else 403)"
    by (simp add: getAnnotationRoute_def)
qed

lemma put_status:
  "findById i anns = Some a \<Longrightarrow> updateAnnotationValidation body \<Longrightarrow>
   res_status (fst (putAnnotationRoute False anns u i body))
     = (if canAccess a u WritePermission then 200 else 403)"
  by (simp add: putAnnotationRoute_def Let_def)

lemma put_denied_unchanged:
  "findById i anns = Some a \<Longrightarrow> \<not> canAccess a u WritePermission \<Longrightarrow>
   snd (putAnnotationRoute throws anns u i body) = anns"
  by (simp add: putAnnotationRoute_def Let_def)

text \<open>
  The share route keeps the share list at one entry for each user, which is the form
  of the list that the theorem on PUT asks for.
\<close>

lemma relabel_keeps_userIds:
  "map share_userId
     (map (\<lambda>share. if share_userId share = userId
                   then share \<lparr> share_permission := permission \<rparr> else share) shared)
   = map share_userId shared"
  by (induction shared) auto

lemma shareWith_distinct:
  "distinct (map share_userId shared) \<Longrightarrow>
   distinct (map share_userId (shareWith now permission userIds shared))"
proof (induction userIds arbitrary: shared)
  case Nil
  then show ?case by simp
next
  case (Cons userId userIds)
  let ?next = "case List.find (\<lambda>share. share_userId share = userId) shared of
          Some existingShare \<Rightarrow>
            map (\<lambda>share. if share_userId share = userId
                         then share \<lparr> share_permission := permission \<rparr> else share) shared
        | None \<Rightarrow>
            shared @ [\<lparr> share_userId = userId, share_permission = permission,
                        sharedAt = now \<rparr>]"
  have "distinct (map share_userId ?next)"
  proof (cases "List.find (\<lambda>share. share_userId share = userId) shared")
    case None
    then have "userId \<notin> set (map share_userId shared)"
      by (auto simp: find_None_iff)
    with Cons.prems None show ?thesis by simp
  next
    case (Some existingShare)
    with Cons.prems show ?thesis by (simp add: relabel_keeps_userIds del: map_map)
  qed
  then have "distinct (map share_userId (shareWith now permission userIds ?next))"
    by (rule Cons.IH)
  then show ?case by simp
qed

text \<open>
  The access rule on documents whose user references print as their ids. For an
  annotation that is found and a valid update body, with no database failure: the
  owner gets 200 from GET and from PUT; a user who is not the owner gets 403 from both
  when the annotation is private, whatever the share list holds, and PUT stores
  nothing; for an annotation that is not private, GET answers a non-owner with 200
  exactly when the user holds a read or a write grant and with 403 otherwise, and, the
  share list having one entry for each user, PUT answers with 200 exactly when the user
  holds a write grant and with 403, storing nothing, otherwise.
\<close>

lemma access_control_on_ids:
  assumes "findById i anns = Some a" and "updateAnnotationValidation body"
  shows "(u = ann_userId a \<longrightarrow>
            res_status (getAnnotationRoute False idText anns u i) = 200
            \<and> res_status (fst (putAnnotationRoute False anns u i body)) = 200)
       \<and> (u \<noteq> ann_userId a \<and> isPrivate a \<longrightarrow>
            res_status (getAnnotationRoute False idText anns u i) = 403
            \<and> res_status (fst (putAnnotationRoute False anns u i body)) = 403
            \<and> snd (putAnnotationRoute False anns u i body) = anns)
       \<and> (u \<noteq> ann_userId a \<and> \<not> isPrivate a \<longrightarrow>
            (res_status (getAnnotationRoute False idText anns u i) = 200
               \<longleftrightarrow> holdsGrant a u ReadPermission \<or> holdsGrant a u WritePermission)
            \<and> (res_status (getAnnotationRoute False idText anns u i) \<noteq> 200
               \<longrightarrow> res_status (getAnnotationRoute False idText anns u i) = 403)
            \<and> (distinct (map share_userId (sharedWith a)) \<longrightarrow>
                 (res_status (fst (putAnnotationRoute False anns u i body)) = 200
                    \<longleftrightarrow> holdsGrant a u WritePermission)
                 \<and> (res_status (fst (putAnnotationRoute False anns u i body)) \<noteq> 200
                    \<longrightarrow> res_status (fst (putAnnotationRoute False anns u i body)) = 403
                      \<and> snd (putAnnotationRoute False anns u i body) = anns)))"
proof -
  let ?get = "res_status (getAnnotationRoute False idText anns u i)"
  let ?put = "res_status (fst (putAnnotationRoute False anns u i body))"
  have g: "?get = (if canAccess a u ReadPermission then 200 else 403)"
    using assms(1) by (rule get_status)
  have p: "?put = (if canAccess a u WritePermission then 200 else 403)"
    using assms by (rule put_status)
  have d: "\<not> canAccess a u WritePermission \<Longrightarrow> snd (putAnnotationRoute False anns u i body) = anns"
    using assms(1) by (rule put_denied_unchanged)
  have owner: "u = ann_userId a \<longrightarrow> ?get = 200 \<and> ?put = 200"
  proof
    assume "u = ann_userId a"
    then have "canAccess a u ReadPermission" "canAccess a u WritePermission"
      by (simp_all add: canAccess_owner)
    then show "?get = 200 \<and> ?put = 200" unfolding g p by simp
  qed
  have priv: "u \<noteq> ann_userId a \<and> isPrivate a \<longrightarrow>
            ?get = 403 \<and> ?put = 403 \<and> snd (putAnnotationRoute False anns u i body) = anns"
  proof
    assume "u \<noteq> ann_userId a \<and> isPrivate a"
    then have n: "\<not> canAccess a u ReadPermission" "\<not> canAccess a u WritePermission"
      by (simp_all add: canAccess_private)
    then show "?get = 403 \<and> ?put = 403 \<and> snd (putAnnotationRoute False anns u i body) = anns"
      unfolding g p using d by simp
  qed
  have shared: "u \<noteq> ann_userId a \<and> \<not> isPrivate a \<longrightarrow>
            (?get = 200 \<longleftrightarrow> holdsGrant a u ReadPermission \<or> holdsGrant a u WritePermission)
            \<and> (?get \<noteq> 200 \<longrightarrow> ?get = 403)
            \<and> (distinct (map share_userId (sharedWith a)) \<longrightarrow>
                 (?put = 200 \<longleftrightarrow> holdsGrant a u WritePermission)
                 \<and> (?put \<noteq> 200 \<longrightarrow> ?put = 403
                      \<and> snd (putAnnotationRoute False anns u i body) = anns))"
  proof (intro impI conjI)
    assume h: "u \<noteq> ann_userId a \<and> \<not> isPrivate a"
    then have r: "canAccess a u ReadPermission
           \<longleftrightarrow> holdsGrant a u ReadPermission \<or> holdsGrant a u WritePermission"
      using canAccess_read_shared by blast
    show "?get = 200 \<longleftrightarrow> holdsGrant a u ReadPermission \<or> holdsGrant a u WritePermission"
      unfolding g r [symmetric] by simp
    show "?get = 403" if "?get \<noteq> 200"
      using that unfolding g by (simp split: if_splits)
    assume dist: "distinct (map share_userId (sharedWith a))"
    with h have w: "canAccess a u WritePermission \<longleftrightarrow> holdsGrant a u WritePermission"
      using canAccess_write_shared by blast
    show "?put = 200 \<longleftrightarrow> holdsGrant a u WritePermission"
      unfolding p w [symmetric] by simp
    show "?put = 403" if "?put \<noteq> 200"
      using that unfolding p by (simp split: if_splits)
    show "snd (putAnnotationRoute False anns u i body) = anns" if "?put \<noteq> 200"
      using that d unfolding p by (simp split: if_splits)
  qed
  from owner priv shared show ?thesis by blast
qed

lemma example_shares:
  "sharedWith privateAnnotation
     = [\<lparr> share_userId = ''userB'', share_permission = WritePermission, sharedAt = 7 \<rparr>]"
  "sharedWith readShared
     = [\<lparr> share_userId = ''userB'', share_permission = ReadPermission, sharedAt = 7 \<rparr>]"
  "sharedWith writeShared
     = [\<lparr> share_userId = ''userB'', share_permission = WritePermission, sharedAt = 7 \<rparr>]"
  by (simp_all add: privateAnnotation_def readShared_def writeShared_def baseAnnotation_def)

lemma example_annotations:
  "ann_id privateAnnotation = ''a1''" "ann_userId privateAnnotation = ''userA''"
  "isPrivate privateAnnotation"
  "ann_id readShared = ''a1''" "ann_userId readShared = ''userA''" "\<not> isPrivate readShared"
  "ann_id writeShared = ''a1''" "ann_userId writeShared = ''userA''" "\<not> isPrivate writeShared"
  by (simp_all add: privateAnnotation_def readShared_def writeShared_def baseAnnotation_def)

lemma access_control_example:
  "findById ''a1'' [privateAnnotation] = Some privateAnnotation
   \<and> updateAnnotationValidation noUpdate
   \<and> holdsGrant privateAnnotation ''userB'' WritePermission
   \<and> res_status (getAnnotationRoute False idText [privateAnnotation] ''userB'' ''a1'') = 403
   \<and> res_status (fst (putAnnotationRoute False [privateAnnotation] ''userB'' ''a1'' noUpdate)) = 403
   \<and> res_status (getAnnotationRoute False idText [privateAnnotation] ''userA'' ''a1'') = 200
   \<and> distinct (map share_userId (sharedWith readShared))
   \<and> holdsGrant readShared ''userB'' ReadPermission
   \<and> \<not> holdsGrant readShared ''userB'' WritePermission
   \<and> res_status (getAnnotationRoute False idText [readShared] ''userB'' ''a1'') = 200
   \<and> res_status (fst (putAnnotationRoute False [readShared] ''userB'' ''a1'' noUpdate)) = 403
   \<and> holdsGrant writeShared ''userB'' WritePermission
   \<and> res_status (getAnnotationRoute False idText [writeShared] ''userB'' ''a1'') = 200
   \<and> res_status (fst (putAnnotationRoute False [writeShared] ''userB'' ''a1'' noUpdate)) = 200"
proof -
  have f: "findById ''a1'' [privateAnnotation] = Some privateAnnotation"
    "findById ''a1'' [readShared] = Some readShared"
    "findById ''a1'' [writeShared] = Some writeShared"
    by (simp_all add: findById_def example_annotations)
  have v: "updateAnnotationValidation noUpdate"
    by (simp add: updateAnnotationValidation_def noUpdate_def optionalIn_def)
  have h: "holdsGrant privateAnnotation ''userB'' WritePermission"
    "holdsGrant readShared ''userB'' ReadPermission"
    "\<not> holdsGrant readShared ''userB'' WritePermission"
    "holdsGrant writeShared ''userB'' WritePermission"
    by (simp_all add: holdsGrant_def example_shares)
  have d: "distinct (map share_userId (sharedWith readShared))"
    "distinct (map share_userId (sharedWith writeShared))"
    by (simp_all add: example_shares)
  have n: "''userB'' \<noteq> ''userA''" by simp
  show ?thesis
    using f v h d n
      access_control_on_ids [OF f(1) v, of "''userB''"]
      access_control_on_ids [OF f(1) v, of "''userA''"]
      access_control_on_ids [OF f(2) v, of "''userB''"]
      access_control_on_ids [OF f(3) v, of "''userB''"]
    by (simp add: example_annotations)
qed

text \<open>
  With the inspection text for a populated reference, no user id equals the text of
  the owner or of a share entry, so the access check of the GET route fails for every
  user whose id is not such a text.
\<close>

lemma get_denies_populated:
  assumes "findById i anns = Some a" and "\<forall>x. populatedText x \<noteq> u"
  shows "res_status (getAnnotationRoute False populatedText anns u i) = 403"
proof -
  have "List.find (\<lambda>entry. share_userId entry = u)
          (map (\<lambda>e. e \<lparr> share_userId := populatedText (share_userId e) \<rparr>) (sharedWith a))
        = None"
    using assms(2) by (auto simp: find_None_iff)
  with assms show ?thesis
    by (simp add: getAnnotationRoute_def populateUsers_def canAccess_def)
qed

text \<open>
  C3. The GET route on a populated annotation: the annotation \<open>writeShared\<close> is owned
  by user A, is not private, and grants write to user B, so that the access check on
  the stored document admits A and B, and the PUT route answers B with 200; the GET
  route, which checks the access after populating the user references, answers 403 to
  the owner A and to B.
\<close>

theorem get_denies_owner_after_populate:
  "ann_userId writeShared = ''userA''
   \<and> canAccess writeShared ''userA'' ReadPermission
   \<and> canAccess writeShared ''userB'' ReadPermission
   \<and> res_status (fst (putAnnotationRoute False [writeShared] ''userB'' ''a1'' noUpdate)) = 200
   \<and> res_status (getAnnotationRoute False inspectionText [writeShared] ''userA'' ''a1'') = 403
   \<and> res_status (getAnnotationRoute False inspectionText [writeShared] ''userB'' ''a1'') = 403"
proof -
  have f: "findById ''a1'' [writeShared] = Some writeShared"
    by (simp add: findById_def example_annotations)
  have v: "updateAnnotationValidation noUpdate"
    by (simp add: updateAnnotationValidation_def noUpdate_def optionalIn_def)
  have a: "canAccess writeShared ''userA'' ReadPermission"
    by (simp add: canAccess_def example_annotations)
  have b: "canAccess writeShared ''userB'' ReadPermission"
    "canAccess writeShared ''userB'' WritePermission"
    by (simp_all add: canAccess_def example_annotations example_shares)
  have p: "res_status (fst (putAnnotationRoute False [writeShared] ''userB'' ''a1'' noUpdate))
             = 200"
    using put_status [OF f v, of "''userB''"] b by simp
  have t: "\<forall>x. inspectionText x \<noteq> ''userA''" "\<forall>x. inspectionText x \<noteq> ''userB''"
    by (simp_all add: inspectionText_def)
  show ?thesis
    using a b(1) p get_denies_populated [OF f t(1)] get_denies_populated [OF f t(2)]
    by (simp add: example_annotations)
qed

section \<open>Properties of the viewer state routes\<close>

subsection \<open>Sorting, cleanup and the two kinds of save\<close>

lemma insort_key_last:
  "\<forall>y \<in> set ys. f y < f x \<Longrightarrow> insort_key f x ys = ys @ [x]"
  for f :: "'a \<Rightarrow> int"
  by (induction ys) auto

lemma sort_newest_first:
  "sorted_wrt (<) (map updatedAt xs) \<Longrightarrow> sort_key (\<lambda>d. - int (updatedAt d)) xs = rev xs"
proof (induction xs)
  case Nil
  then show ?case by simp
next
  case (Cons x xs)
  then have later: "\<forall>y \<in> set xs. updatedAt x < updatedAt y" by auto
  from Cons have "sort_key (\<lambda>d. - int (updatedAt d)) xs = rev xs" by simp
  moreover have "insort_key (\<lambda>d. - int (updatedAt d)) x (rev xs) = rev xs @ [x]"
    by (rule insort_key_last) (use later in auto)
  ultimately show ?case by simp
qed

lemma filter_out_taken:
  "distinct (map f xs) \<Longrightarrow> filter (\<lambda>d. f d \<notin> set (map f (take k xs))) xs = drop k xs"
proof -
  assume d: "distinct (map f xs)"
  have split: "xs = take k xs @ drop k xs" by simp
  from d have "distinct (map f (take k xs) @ map f (drop k xs))"
    by (metis split map_append)
  then have disj: "set (map f (take k xs)) \<inter> set (map f (drop k xs)) = {}"
    by simp
  have a: "filter (\<lambda>d. f d \<notin> set (map f (take k xs))) (take k xs) = []"
    by (auto simp: filter_empty_conv)
  have b: "filter (\<lambda>d. f d \<notin> set (map f (take k xs))) (drop k xs) = drop k xs"
    using disj by (auto simp: filter_id_conv)
  have "filter (\<lambda>d. f d \<notin> set (map f (take k xs))) (take k xs @ drop k xs) = drop k xs"
    unfolding filter_append a b by simp
  then show ?thesis by simp
qed

lemma trim_Nil: "trim [] = []"
  by (simp add: trim_def)

lemma trim_nonempty: "trim t \<noteq> [] \<Longrightarrow> t \<noteq> []"
  using trim_Nil by auto

lemma trim_examples:
  "trim ''study1'' = ''study1''" "trim ''study1 '' = ''study1''"
  "trim ''s1'' = ''s1''" "trim '' s1'' = ''s1''" "trim ''s2'' = ''s2''"
  by code_simp+

lemma findOneState_None_iff:
  "findOneState u st se db = None \<longleftrightarrow> trim se \<notin> set (map vs_sessionId (statesOf u st db))"
proof -
  have "findOneState u st se db = None \<longleftrightarrow>
          \<not> (\<exists>d \<in> set (states db). vs_userId d = u \<and> vs_studyInstanceUID d = trim st
                 \<and> vs_sessionId d = trim se)"
    by (auto simp: findOneState_def find_None_iff)
  also have "\<dots> \<longleftrightarrow> trim se \<notin> vs_sessionId ` set (statesOf u st db)"
    unfolding statesOf_def image_iff by fastforce
  finally show ?thesis by simp
qed

lemma findOneState_Some:
  "findOneState u st se db = Some d \<Longrightarrow>
   d \<in> set (states db) \<and> vs_userId d = u \<and> vs_studyInstanceUID d = trim st
     \<and> vs_sessionId d = trim se"
  by (auto simp: findOneState_def find_Some_iff)

lemma statesOf_distinct_ids:
  "distinct (map vs_id (states db)) \<Longrightarrow> distinct (map vs_id (statesOf u st db))"
  unfolding statesOf_def by (rule distinct_map_filter)

lemma cleanup_states:
  "states (cleanupOldStates u st db)
     = filter (\<lambda>d. vs_id d \<notin> set (map vs_id
                  (drop 10 (sort_key (\<lambda>d. - int (updatedAt d)) (statesOf u st db)))))
         (states db)"
  by (simp add: cleanupOldStates_def Let_def)

lemma cleanup_nextId: "nextId (cleanupOldStates u st db) = nextId db"
  by (simp add: cleanupOldStates_def Let_def)

lemma cleanup_wellFormed: "wellFormedDb db \<Longrightarrow> wellFormedDb (cleanupOldStates u st db)"
  unfolding wellFormedDb_def cleanup_states cleanup_nextId
  by (simp add: distinct_map_filter)

lemma cleanup_keeps_newest:
  assumes ids: "distinct (map vs_id (states db))"
    and sorted: "sorted_wrt (<) (map updatedAt (statesOf u st db))"
  shows "statesOf u st (cleanupOldStates u st db)
           = drop (length (statesOf u st db) - 10) (statesOf u st db)"
proof -
  let ?xs = "statesOf u st db"
  let ?k = "length ?xs - 10"
  have old: "drop 10 (sort_key (\<lambda>d. - int (updatedAt d)) ?xs) = rev (take ?k ?xs)"
    by (simp add: sort_newest_first [OF sorted] drop_rev)
  have "statesOf u st (cleanupOldStates u st db)
          = filter (\<lambda>d. vs_id d \<notin> set (map vs_id (take ?k ?xs))) ?xs"
    unfolding statesOf_def [of u st "cleanupOldStates u st db"] cleanup_states old
    by (simp add: statesOf_def conj_commute)
  also have "\<dots> = drop ?k ?xs"
    using statesOf_distinct_ids [OF ids] by (rule filter_out_taken)
  finally show ?thesis .
qed

lemma cleanup_other_studies:
  assumes ids: "distinct (map vs_id (states db))"
  shows "filter (\<lambda>d. \<not> (vs_userId d = u \<and> vs_studyInstanceUID d = trim st))
           (states (cleanupOldStates u st db))
         = filter (\<lambda>d. \<not> (vs_userId d = u \<and> vs_studyInstanceUID d = trim st)) (states db)"
proof -
  let ?old = "drop 10 (sort_key (\<lambda>d. - int (updatedAt d)) (statesOf u st db))"
  have sub: "set ?old \<subseteq> set (statesOf u st db)"
    by (metis set_drop_subset set_sort)
  have "vs_id d \<notin> set (map vs_id ?old)"
    if d: "d \<in> set (states db)"
      and other: "\<not> (vs_userId d = u \<and> vs_studyInstanceUID d = trim st)"
    for d
  proof
    assume "vs_id d \<in> set (map vs_id ?old)"
    then obtain e where e: "e \<in> set ?old" and same: "vs_id e = vs_id d" by auto
    from e sub have es: "e \<in> set (states db)"
      and mine: "vs_userId e = u \<and> vs_studyInstanceUID e = trim st"
      by (auto simp: statesOf_def)
    from ids es d same have "e = d" by (simp add: distinct_map inj_on_def)
    with mine other show False by simp
  qed
  then show ?thesis
    unfolding cleanup_states by (auto intro: filter_cong)
qed

lemma cleanup_small:
  "length (statesOf u st db) \<le> 10 \<Longrightarrow> cleanupOldStates u st db = db"
  by (simp add: cleanupOldStates_def Let_def)

lemma saveExisting_eq:
  "saveExisting now (stored \<lparr> vs_state := state, autoSaved := flag \<rparr>) db =
     (stored \<lparr> vs_state := state, autoSaved := flag, version := version stored + 1,
               updatedAt := now \<rparr>,
      db \<lparr> states := map (\<lambda>d. if vs_id d = vs_id stored
                               then stored \<lparr> vs_state := state, autoSaved := flag,
                                             version := version stored + 1, updatedAt := now \<rparr>
                               else d) (states db) \<rparr>)"
  by (simp add: saveExisting_def viewerStatePreSave_def Let_def)

lemma saveNew_eq:
  "saveNew now (newViewerState u st se s flag db) db =
     (createdState now u st se s flag db,
      db \<lparr> states := states db @ [createdState now u st se s flag db],
           nextId := nextId db + 1 \<rparr>)"
  by (simp add: saveNew_def newViewerState_def createdState_def viewerStatePreSave_def Let_def)

lemma saveRoute_existing:
  assumes "saveStateValidation body" and "schemaAccepts validators body"
    and "findOneState u (the (body_studyInstanceUID body)) (the (body_sessionId body)) db
           = Some stored"
  shows "saveRoute now validators None u body db =
     (let saved = stored \<lparr> vs_state := the (body_state body),
                    autoSaved := (case body_autoSaved body of Some b \<Rightarrow> b | None \<Rightarrow> False),
                    version := version stored + 1, updatedAt := now \<rparr>
      in (okResponse saved,
          cleanupOldStates u (the (body_studyInstanceUID body))
            (db \<lparr> states := map (\<lambda>d. if vs_id d = vs_id stored then saved else d)
                               (states db) \<rparr>)))"
proof -
  from assms(3) have "vs_studyInstanceUID stored = trim (the (body_studyInstanceUID body))"
    "vs_sessionId stored = trim (the (body_sessionId body))"
    by (auto dest: findOneState_Some)
  with assms(2) have "schemaValidation validators
     (stored \<lparr> vs_state := the (body_state body),
               autoSaved := (case body_autoSaved body of Some b \<Rightarrow> b | None \<Rightarrow> False) \<rparr>)"
    by (simp add: schemaValidation_def schemaAccepts_def)
  with assms(1,3) show ?thesis
    by (simp add: saveRoute_def saveExisting_def viewerStatePreSave_def okResponse_def Let_def)
qed

lemma saveRoute_new:
  assumes "saveStateValidation body" and "schemaAccepts validators body"
    and "findOneState u (the (body_studyInstanceUID body)) (the (body_sessionId body)) db = None"
  shows "saveRoute now validators None u body db =
     (let created = createdState now u (the (body_studyInstanceUID body))
                      (the (body_sessionId body)) (the (body_state body))
                      (case body_autoSaved body of Some b \<Rightarrow> b | None \<Rightarrow> False) db
      in (okResponse created,
          cleanupOldStates u (the (body_studyInstanceUID body))
            (db \<lparr> states := states db @ [created], nextId := nextId db + 1 \<rparr>)))"
proof -
  from assms(2) have "schemaValidation validators
     (newViewerState u (the (body_studyInstanceUID body)) (the (body_sessionId body))
        (the (body_state body))
        (case body_autoSaved body of Some b \<Rightarrow> b | None \<Rightarrow> False) db)"
    by (simp add: schemaValidation_def schemaAccepts_def newViewerState_def)
  with assms(1,3) show ?thesis
    by (simp add: saveRoute_def saveNew_eq okResponse_def Let_def)
qed

lemma statesOf_map:
  assumes "\<And>d. d \<in> set (states db) \<Longrightarrow>
             vs_userId (g d) = vs_userId d \<and> vs_studyInstanceUID (g d) = vs_studyInstanceUID d"
  shows "statesOf u st (db \<lparr> states := map g (states db) \<rparr>) = map g (statesOf u st db)"
proof -
  have "filter ((\<lambda>d. vs_userId d = u \<and> vs_studyInstanceUID d = trim st) \<circ> g) (states db)
          = filter (\<lambda>d. vs_userId d = u \<and> vs_studyInstanceUID d = trim st) (states db)"
    by (rule filter_cong) (simp_all add: assms)
  then show ?thesis
    by (simp add: statesOf_def filter_map)
qed

lemma save_in_place:
  assumes valid: "saveStateValidation body"
    and accepted: "schemaAccepts validators body"
    and found: "findOneState u (the (body_studyInstanceUID body)) (the (body_sessionId body)) db
                  = Some stored"
    and wf: "wellFormedDb db"
    and small: "length (statesOf u (the (body_studyInstanceUID body)) db) \<le> 10"
  shows "saveRoute now validators None u body db =
     (let saved = stored \<lparr> vs_state := the (body_state body),
                    autoSaved := (case body_autoSaved body of Some b \<Rightarrow> b | None \<Rightarrow> False),
                    version := version stored + 1, updatedAt := now \<rparr>
      in (okResponse saved,
          db \<lparr> states := map (\<lambda>d. if vs_id d = vs_id stored then saved else d)
                             (states db) \<rparr>))"
proof -
  let ?st = "the (body_studyInstanceUID body)"
  let ?state = "the (body_state body)"
  let ?flag = "case body_autoSaved body of Some b \<Rightarrow> b | None \<Rightarrow> False"
  let ?saved = "stored \<lparr> vs_state := ?state, autoSaved := ?flag,
                           version := version stored + 1, updatedAt := now \<rparr>"
  let ?g = "\<lambda>d. if vs_id d = vs_id stored then ?saved else d"
  have route: "saveRoute now validators None u body db =
     (okResponse ?saved, cleanupOldStates u ?st (db \<lparr> states := map ?g (states db) \<rparr>))"
    using saveRoute_existing [OF valid accepted found, of now] unfolding Let_def .
  have "statesOf u ?st (db \<lparr> states := map ?g (states db) \<rparr>) = map ?g (statesOf u ?st db)"
  proof (rule statesOf_map)
    fix d
    assume d: "d \<in> set (states db)"
    have stored: "stored \<in> set (states db)" using found by (auto dest: findOneState_Some)
    show "vs_userId (?g d) = vs_userId d \<and> vs_studyInstanceUID (?g d) = vs_studyInstanceUID d"
    proof (cases "vs_id d = vs_id stored")
      case True
      with wf d stored have "d = stored"
        by (simp add: wellFormedDb_def distinct_map inj_on_def)
      then show ?thesis by simp
    next
      case False
      then show ?thesis by simp
    qed
  qed
  then have "length (statesOf u ?st (db \<lparr> states := map ?g (states db) \<rparr>)) \<le> 10"
    using small by simp
  then have "cleanupOldStates u ?st (db \<lparr> states := map ?g (states db) \<rparr>)
               = db \<lparr> states := map ?g (states db) \<rparr>"
    by (rule cleanup_small)
  then show ?thesis
    unfolding route Let_def by simp
qed

lemma statesOf_insert:
  "statesOf u st (db \<lparr> states := states db @ [createdState now u st se s flag db],
                       nextId := n \<rparr>)
     = statesOf u st db @ [createdState now u st se s flag db]"
  by (simp add: statesOf_def createdState_def)

lemma insert_wellFormed:
  "wellFormedDb db \<Longrightarrow>
   wellFormedDb (db \<lparr> states := states db @ [createdState now u st se s flag db],
                      nextId := nextId db + 1 \<rparr>)"
  by (auto simp: wellFormedDb_def createdState_def less_Suc_eq)

lemma save_creates:
  assumes valid: "saveStateValidation body"
    and accepted: "schemaAccepts validators body"
    and none: "findOneState u (the (body_studyInstanceUID body)) (the (body_sessionId body)) db
                 = None"
    and small: "length (statesOf u (the (body_studyInstanceUID body)) db) < 10"
  shows "saveRoute now validators None u body db =
     (let created = createdState now u (the (body_studyInstanceUID body))
                      (the (body_sessionId body)) (the (body_state body))
                      (case body_autoSaved body of Some b \<Rightarrow> b | None \<Rightarrow> False) db
      in (okResponse created,
          db \<lparr> states := states db @ [created], nextId := nextId db + 1 \<rparr>))"
proof -
  let ?st = "the (body_studyInstanceUID body)"
  let ?c = "createdState now u ?st (the (body_sessionId body)) (the (body_state body))
              (case body_autoSaved body of Some b \<Rightarrow> b | None \<Rightarrow> False) db"
  let ?db1 = "db \<lparr> states := states db @ [?c], nextId := nextId db + 1 \<rparr>"
  have route: "saveRoute now validators None u body db
                 = (okResponse ?c, cleanupOldStates u ?st ?db1)"
    using saveRoute_new [OF valid accepted none, of now] by (simp add: Let_def)
  have "length (statesOf u ?st ?db1) \<le> 10"
    using small by (simp add: statesOf_insert)
  then have "cleanupOldStates u ?st ?db1 = ?db1" by (rule cleanup_small)
  then show ?thesis
    unfolding route by (simp add: Let_def)
qed

lemma save_new_session:
  assumes valid: "saveStateValidation body"
    and accepted: "schemaAccepts validators body"
    and none: "findOneState u (the (body_studyInstanceUID body)) (the (body_sessionId body)) db
                 = None"
    and wf: "wellFormedDb db"
    and sorted: "sorted_wrt (<) (map updatedAt (statesOf u (the (body_studyInstanceUID body)) db))"
    and later: "\<forall>d \<in> set (statesOf u (the (body_studyInstanceUID body)) db). updatedAt d < now"
  shows "statesOf u (the (body_studyInstanceUID body))
           (snd (saveRoute now validators None u body db))
         = drop (length (statesOf u (the (body_studyInstanceUID body)) db) + 1 - 10)
             (statesOf u (the (body_studyInstanceUID body)) db
              @ [createdState now u (the (body_studyInstanceUID body))
                   (the (body_sessionId body)) (the (body_state body))
                   (case body_autoSaved body of Some b \<Rightarrow> b | None \<Rightarrow> False) db])"
    and "wellFormedDb (snd (saveRoute now validators None u body db))"
proof -
  let ?st = "the (body_studyInstanceUID body)"
  let ?c = "createdState now u ?st (the (body_sessionId body)) (the (body_state body))
              (case body_autoSaved body of Some b \<Rightarrow> b | None \<Rightarrow> False) db"
  let ?db1 = "db \<lparr> states := states db @ [?c], nextId := nextId db + 1 \<rparr>"
  have db': "snd (saveRoute now validators None u body db) = cleanupOldStates u ?st ?db1"
    using saveRoute_new [OF valid accepted none, of now] by (simp add: Let_def)
  have wf1: "wellFormedDb ?db1" using wf by (rule insert_wellFormed)
  have xs: "statesOf u ?st ?db1 = statesOf u ?st db @ [?c]" by (rule statesOf_insert)
  have "updatedAt ?c = now" by (simp add: createdState_def)
  with sorted later have s1: "sorted_wrt (<) (map updatedAt (statesOf u ?st ?db1))"
    unfolding xs by (simp add: sorted_wrt_append)
  from wf1 have "distinct (map vs_id (states ?db1))" by (simp add: wellFormedDb_def)
  from cleanup_keeps_newest [OF this s1]
  show "statesOf u ?st (snd (saveRoute now validators None u body db))
         = drop (length (statesOf u ?st db) + 1 - 10) (statesOf u ?st db @ [?c])"
    unfolding db' xs by simp
  show "wellFormedDb (snd (saveRoute now validators None u body db))"
    unfolding db' using wf1 by (rule cleanup_wellFormed)
qed

lemma saveRequest_fields:
  "the (body_studyInstanceUID (saveRequest st se s)) = st"
  "the (body_sessionId (saveRequest st se s)) = se"
  "the (body_state (saveRequest st se s)) = s"
  "(case body_autoSaved (saveRequest st se s) of Some b \<Rightarrow> b | None \<Rightarrow> False) = False"
  "saveStateValidation (saveRequest st se s) \<longleftrightarrow> st \<noteq> [] \<and> se \<noteq> []"
  "schemaAccepts acceptAll (saveRequest st se s) \<longleftrightarrow> trim st \<noteq> [] \<and> trim se \<noteq> []"
  by (simp_all add: saveRequest_def saveStateValidation_def notEmpty_def schemaAccepts_def
      acceptAll_def)

lemma drop_recent:
  "drop (length (drop (length past - 10) past) + 1 - 10) (drop (length past - 10) past @ [r])
     = drop (length (past @ [r]) - 10) (past @ [r])"
proof (cases "length past < 10")
  case True
  then show ?thesis by simp
next
  case False
  then have "length past - 10 + 1 = length past - 9" by simp
  with False show ?thesis by (simp add: Suc_diff_le)
qed

lemma saveSessions_recent:
  assumes "wellFormedDb db"
    and "map stateSummary (statesOf u st db) = drop (length past - 10) past"
    and "sorted_wrt (<) (map fst (past @ map storedAs reqs))"
    and "distinct (map (fst \<circ> snd) (past @ map storedAs reqs))"
    and "trim st \<noteq> []" and "\<forall>r \<in> set reqs. fst (snd (storedAs r)) \<noteq> []"
  shows "map stateSummary (statesOf u st (saveSessions u st reqs db))
           = drop (length (past @ map storedAs reqs) - 10) (past @ map storedAs reqs)
         \<and> wellFormedDb (saveSessions u st reqs db)"
  using assms
proof (induction reqs arbitrary: db past)
  case Nil
  then show ?case by simp
next
  case (Cons r reqs)
  obtain t se s where r: "r = (t, se, s)" by (cases r) auto
  then have sr: "storedAs r = (t, trim se, s)" by (simp add: storedAs_def)
  let ?xs = "statesOf u st db"
  let ?body = "saveRequest st se s"
  let ?db' = "snd (saveRoute t acceptAll None u ?body db)"
  have times: "map updatedAt ?xs = map fst (drop (length past - 10) past)"
    and sessions: "map vs_sessionId ?xs = map (fst \<circ> snd) (drop (length past - 10) past)"
    using Cons.prems(2) [symmetric] by (simp_all add: stateSummary_def comp_def)
  have len: "length ?xs = length (drop (length past - 10) past)"
    using Cons.prems(2) by (metis length_map)
  have keys: "trim st \<noteq> []" "trim se \<noteq> []"
    using Cons.prems(5,6) by (simp_all add: r storedAs_def)
  then have valid: "saveStateValidation ?body"
    by (simp add: saveRequest_fields trim_nonempty)
  have accepted: "schemaAccepts acceptAll ?body"
    using keys by (simp add: saveRequest_fields)
  have "trim se \<notin> set (map (fst \<circ> snd) past)"
    using Cons.prems(4) by (auto simp: sr)
  then have "trim se \<notin> set (map vs_sessionId ?xs)"
    unfolding sessions using set_drop_subset [of "length past - 10" past] by auto
  then have none: "findOneState u (the (body_studyInstanceUID ?body))
                     (the (body_sessionId ?body)) db = None"
    by (simp add: saveRequest_fields findOneState_None_iff)
  have "sorted_wrt (<) (map fst past)"
    using Cons.prems(3) by (simp add: sorted_wrt_append)
  then have sorted: "sorted_wrt (<) (map updatedAt (statesOf u (the (body_studyInstanceUID ?body)) db))"
    unfolding saveRequest_fields times drop_map [symmetric] by (rule sorted_wrt_drop)
  have "\<forall>x \<in> set (map fst past). x < t"
    using Cons.prems(3) by (auto simp: sorted_wrt_append sr)
  then have "\<forall>x \<in> set (map updatedAt ?xs). x < t"
    unfolding times using set_drop_subset [of "length past - 10" past] by auto
  then have later: "\<forall>d \<in> set (statesOf u (the (body_studyInstanceUID ?body)) db). updatedAt d < t"
    by (simp add: saveRequest_fields)
  note step = save_new_session [where validators = acceptAll and body = "?body" and u = u
      and db = db and now = t, OF valid accepted none Cons.prems(1) sorted later]
  have summary: "stateSummary (createdState t u st se s False db) = storedAs r"
    by (simp add: stateSummary_def createdState_def sr)
  have "map stateSummary (statesOf u st ?db')
          = drop (length ?xs + 1 - 10) (map stateSummary ?xs @ [storedAs r])"
    using step(1) by (simp add: saveRequest_fields drop_map summary)
  also have "\<dots> = drop (length (past @ [storedAs r]) - 10) (past @ [storedAs r])"
    unfolding Cons.prems(2) len by (rule drop_recent)
  finally have inv: "map stateSummary (statesOf u st ?db')
                       = drop (length (past @ [storedAs r]) - 10) (past @ [storedAs r])" .
  have "map stateSummary (statesOf u st (saveSessions u st reqs ?db'))
           = drop (length ((past @ [storedAs r]) @ map storedAs reqs) - 10)
               ((past @ [storedAs r]) @ map storedAs reqs)
         \<and> wellFormedDb (saveSessions u st reqs ?db')"
    using step(2) inv Cons.prems(3,4,5,6)
    by (intro Cons.IH) simp_all
  then show ?case by (simp add: r)
qed

lemma find_append_last:
  "List.find P xs = None \<Longrightarrow> P y \<Longrightarrow> List.find P (xs @ [y]) = Some y"
  by (induction xs) (auto split: if_splits)

lemma statesOf_same_key:
  "trim st' = trim st \<Longrightarrow> statesOf u st' db = statesOf u st db"
  by (simp add: statesOf_def)

lemma save_twice:
  assumes valid: "saveStateValidation body" and accepted: "schemaAccepts validators body"
    and valid': "saveStateValidation body'" and accepted': "schemaAccepts validators body'"
    and study: "trim (the (body_studyInstanceUID body')) = trim (the (body_studyInstanceUID body))"
    and session: "trim (the (body_sessionId body')) = trim (the (body_sessionId body))"
    and none: "findOneState u (the (body_studyInstanceUID body)) (the (body_sessionId body)) db
                 = None"
    and wf: "wellFormedDb db"
    and small: "length (statesOf u (the (body_studyInstanceUID body)) db) < 10"
  shows "saveRoute now' validators None u body' (snd (saveRoute now validators None u body db)) =
     (let created = createdState now u (the (body_studyInstanceUID body))
                      (the (body_sessionId body)) (the (body_state body))
                      (case body_autoSaved body of Some b \<Rightarrow> b | None \<Rightarrow> False) db;
          saved = created \<lparr> vs_state := the (body_state body'),
                    autoSaved := (case body_autoSaved body' of Some b \<Rightarrow> b | None \<Rightarrow> False),
                    version := 2, updatedAt := now' \<rparr>
      in (okResponse saved,
          db \<lparr> states := states db @ [saved], nextId := nextId db + 1 \<rparr>))"
proof -
  let ?st = "the (body_studyInstanceUID body)" and ?se = "the (body_sessionId body)"
  let ?st' = "the (body_studyInstanceUID body')" and ?se' = "the (body_sessionId body')"
  let ?c = "createdState now u ?st ?se (the (body_state body))
              (case body_autoSaved body of Some b \<Rightarrow> b | None \<Rightarrow> False) db"
  let ?db1 = "db \<lparr> states := states db @ [?c], nextId := nextId db + 1 \<rparr>"
  let ?saved = "?c \<lparr> vs_state := the (body_state body'),
                    autoSaved := (case body_autoSaved body' of Some b \<Rightarrow> b | None \<Rightarrow> False),
                    version := 2, updatedAt := now' \<rparr>"
  have first: "snd (saveRoute now validators None u body db) = ?db1"
    using save_creates [OF valid accepted none small, of now] by (simp add: Let_def)
  have wf1: "wellFormedDb ?db1" using wf by (rule insert_wellFormed)
  have "List.find (\<lambda>d. vs_userId d = u \<and> vs_studyInstanceUID d = trim ?st'
                    \<and> vs_sessionId d = trim ?se') (states db) = None"
    using none unfolding findOneState_def study session .
  moreover have "vs_userId ?c = u \<and> vs_studyInstanceUID ?c = trim ?st'
                    \<and> vs_sessionId ?c = trim ?se'"
    by (simp add: createdState_def study session)
  ultimately have found: "findOneState u ?st' ?se' ?db1 = Some ?c"
    unfolding findOneState_def by (simp add: find_append_last)
  have "length (statesOf u ?st ?db1) \<le> 10"
    using small by (simp add: statesOf_insert)
  then have small1: "length (statesOf u ?st' ?db1) \<le> 10"
    by (simp add: statesOf_same_key [OF study])
  have fresh: "\<forall>d \<in> set (states db). vs_id d \<noteq> vs_id ?c"
    using wf by (auto simp: wellFormedDb_def createdState_def)
  have v: "version ?c + 1 = 2" by (simp add: createdState_def)
  have step: "saveRoute now' validators None u body' ?db1 =
          (okResponse ?saved,
           ?db1 \<lparr> states := map (\<lambda>d. if vs_id d = vs_id ?c then ?saved else d) (states ?db1) \<rparr>)"
    using save_in_place [OF valid' accepted' found wf1 small1, of now'] unfolding Let_def v .
  have replaced: "map (\<lambda>d. if vs_id d = vs_id ?c then ?saved else d) (states ?db1)
               = states db @ [?saved]"
  proof -
    have "map (\<lambda>d. if vs_id d = vs_id ?c then ?saved else d) (states db) = states db"
      by (rule map_idI) (use fresh in simp)
    then show ?thesis by simp
  qed
  show ?thesis
    unfolding first Let_def step replaced by simp
qed

subsection \<open>Versions and retention\<close>

text \<open>
  C4. For a valid request whose document the schema accepts, on a database that raises
  no error: when a state with the user, study and session of the request is stored (in
  a database with unique ids and at most ten states of the user and study), the save
  keeps that document in its place, gives it the state and auto-saved flag of the
  request and the time of the save, and makes its version one higher; when no such
  state is stored (and fewer than ten of the user and study are), the save adds one
  document with version 1. Saving twice for one user, study and session therefore
  leaves one document, with version 2 and the state of the second request. And after a
  run of saves of one user and study with distinct sessions at increasing times, on a
  database that held no state of that user and study, the states of the user and study
  are those of the last ten saves: after eleven saves all but the first. Studies and
  sessions are the same when they are the same text once trimmed.
\<close>

theorem save_versions_and_retention:
  "(saveStateValidation body \<and> schemaAccepts validators body
      \<and> findOneState u (the (body_studyInstanceUID body)) (the (body_sessionId body)) db
          = Some stored
      \<and> wellFormedDb db
      \<and> length (statesOf u (the (body_studyInstanceUID body)) db) \<le> 10
    \<longrightarrow> saveRoute now validators None u body db =
     (let saved = stored \<lparr> vs_state := the (body_state body),
                    autoSaved := (case body_autoSaved body of Some b \<Rightarrow> b | None \<Rightarrow> False),
                    version := version stored + 1, updatedAt := now \<rparr>
      in (okResponse saved,
          db \<lparr> states := map (\<lambda>d. if vs_id d = vs_id stored then saved else d)
                             (states db) \<rparr>)))
   \<and> (saveStateValidation body \<and> schemaAccepts validators body
      \<and> findOneState u (the (body_studyInstanceUID body)) (the (body_sessionId body)) db
          = None
      \<and> length (statesOf u (the (body_studyInstanceUID body)) db) < 10
    \<longrightarrow> saveRoute now validators None u body db =
     (let created = createdState now u (the (body_studyInstanceUID body))
                      (the (body_sessionId body)) (the (body_state body))
                      (case body_autoSaved body of Some b \<Rightarrow> b | None \<Rightarrow> False) db
      in (okResponse created,
          db \<lparr> states := states db @ [created], nextId := nextId db + 1 \<rparr>)))
   \<and> (saveStateValidation body \<and> schemaAccepts validators body
      \<and> saveStateValidation body' \<and> schemaAccepts validators body'
      \<and> trim (the (body_studyInstanceUID body')) = trim (the (body_studyInstanceUID body))
      \<and> trim (the (body_sessionId body')) = trim (the (body_sessionId body))
      \<and> findOneState u (the (body_studyInstanceUID body)) (the (body_sessionId body)) db
          = None
      \<and> wellFormedDb db
      \<and> length (statesOf u (the (body_studyInstanceUID body)) db) < 10
    \<longrightarrow> saveRoute now' validators None u body'
          (snd (saveRoute now validators None u body db)) =
     (let created = createdState now u (the (body_studyInstanceUID body))
                      (the (body_sessionId body)) (the (body_state body))
                      (case body_autoSaved body of Some b \<Rightarrow> b | None \<Rightarrow> False) db;
          saved = created \<lparr> vs_state := the (body_state body'),
                    autoSaved := (case body_autoSaved body' of Some b \<Rightarrow> b | None \<Rightarrow> False),
                    version := 2, updatedAt := now' \<rparr>
      in (okResponse saved,
          db \<lparr> states := states db @ [saved], nextId := nextId db + 1 \<rparr>)))
   \<and> (wellFormedDb db \<and> statesOf u st db = []
      \<and> sorted_wrt (<) (map fst reqs) \<and> distinct (map (fst \<circ> snd) (map storedAs reqs))
      \<and> trim st \<noteq> [] \<and> (\<forall>r \<in> set reqs. fst (snd (storedAs r)) \<noteq> [])
    \<longrightarrow> map stateSummary (statesOf u st (saveSessions u st reqs db))
          = drop (length reqs - 10) (map storedAs reqs))"
proof (intro conjI impI)
  assume "saveStateValidation body \<and> schemaAccepts validators body
      \<and> findOneState u (the (body_studyInstanceUID body)) (the (body_sessionId body)) db
          = Some stored
      \<and> wellFormedDb db
      \<and> length (statesOf u (the (body_studyInstanceUID body)) db) \<le> 10"
  then show "saveRoute now validators None u body db =
     (let saved = stored \<lparr> vs_state := the (body_state body),
                    autoSaved := (case body_autoSaved body of Some b \<Rightarrow> b | None \<Rightarrow> False),
                    version := version stored + 1, updatedAt := now \<rparr>
      in (okResponse saved,
          db \<lparr> states := map (\<lambda>d. if vs_id d = vs_id stored then saved else d)
                             (states db) \<rparr>))"
    by (elim conjE) (rule save_in_place; assumption)
next
  assume "saveStateValidation body \<and> schemaAccepts validators body
      \<and> findOneState u (the (body_studyInstanceUID body)) (the (body_sessionId body)) db
          = None
      \<and> length (statesOf u (the (body_studyInstanceUID body)) db) < 10"
  then show "saveRoute now validators None u body db =
     (let created = createdState now u (the (body_studyInstanceUID body))
                      (the (body_sessionId body)) (the (body_state body))
                      (case body_autoSaved body of Some b \<Rightarrow> b | None \<Rightarrow> False) db
      in (okResponse created,
          db \<lparr> states := states db @ [created], nextId := nextId db + 1 \<rparr>))"
    by (elim conjE) (rule save_creates; assumption)
next
  assume "saveStateValidation body \<and> schemaAccepts validators body
      \<and> saveStateValidation body' \<and> schemaAccepts validators body'
      \<and> trim (the (body_studyInstanceUID body')) = trim (the (body_studyInstanceUID body))
      \<and> trim (the (body_sessionId body')) = trim (the (body_sessionId body))
      \<and> findOneState u (the (body_studyInstanceUID body)) (the (body_sessionId body)) db
          = None
      \<and> wellFormedDb db
      \<and> length (statesOf u (the (body_studyInstanceUID body)) db) < 10"
  then show "saveRoute now' validators None u body'
          (snd (saveRoute now validators None u body db)) =
     (let created = createdState now u (the (body_studyInstanceUID body))
                      (the (body_sessionId body)) (the (body_state body))
                      (case body_autoSaved body of Some b \<Rightarrow> b | None \<Rightarrow> False) db;
          saved = created \<lparr> vs_state := the (body_state body'),
                    autoSaved := (case body_autoSaved body' of Some b \<Rightarrow> b | None \<Rightarrow> False),
                    version := 2, updatedAt := now' \<rparr>
      in (okResponse saved,
          db \<lparr> states := states db @ [saved], nextId := nextId db + 1 \<rparr>))"
    by (elim conjE) (rule save_twice; assumption)
next
  assume h: "wellFormedDb db \<and> statesOf u st db = []
      \<and> sorted_wrt (<) (map fst reqs) \<and> distinct (map (fst \<circ> snd) (map storedAs reqs))
      \<and> trim st \<noteq> [] \<and> (\<forall>r \<in> set reqs. fst (snd (storedAs r)) \<noteq> [])"
  have t: "map fst (map storedAs reqs) = map fst reqs"
    by (simp add: storedAs_def comp_def)
  from h have "sorted_wrt (<) (map fst reqs)" by blast
  then have times: "sorted_wrt (<) (map fst ([] @ map storedAs reqs))"
    unfolding append_Nil t .
  from h have wf: "wellFormedDb db"
    and empty: "map stateSummary (statesOf u st db) = drop (length ([] :: (nat \<times> string \<times> string) list) - 10) []"
    and sessions: "distinct (map (fst \<circ> snd) ([] @ map storedAs reqs))"
    and study: "trim st \<noteq> []" and keys: "\<forall>r \<in> set reqs. fst (snd (storedAs r)) \<noteq> []"
    by simp_all
  have "map stateSummary (statesOf u st (saveSessions u st reqs db))
           = drop (length ([] @ map storedAs reqs) - 10) ([] @ map storedAs reqs)
         \<and> wellFormedDb (saveSessions u st reqs db)"
    using wf empty times sessions study keys by (rule saveSessions_recent)
  then show "map stateSummary (statesOf u st (saveSessions u st reqs db))
          = drop (length reqs - 10) (map storedAs reqs)"
    by simp
qed

lemma first_save:
  "saveRoute 100 acceptAll None ''userA'' firstRequest emptyDb = (okResponse firstState, storedDb)"
  by (simp add: saveRoute_def firstRequest_def saveRequest_def saveStateValidation_def
      notEmpty_def acceptAll_def findOneState_def emptyDb_def saveNew_def newViewerState_def
      schemaValidation_def trim_examples
      viewerStatePreSave_def cleanupOldStates_def statesOf_def okResponse_def
      firstState_def storedDb_def Let_def)

lemma storedDb_facts:
  "findOneState ''userA'' ''study1'' ''s1'' storedDb = Some firstState"
  "findOneState ''userA'' ''study1 '' '' s1'' storedDb = Some firstState"
  "findOneState ''userA'' ''study1'' ''s2'' storedDb = None"
  "wellFormedDb storedDb"
  "statesOf ''userA'' ''study1'' storedDb = [firstState]"
  "statesOf ''userA'' ''study1 '' storedDb = [firstState]"
  by (simp_all add: findOneState_def storedDb_def firstState_def wellFormedDb_def statesOf_def
      trim_examples)

lemma request_facts:
  "saveStateValidation firstRequest" "saveStateValidation changedRequest"
  "saveStateValidation otherSessionRequest" "saveStateValidation paddedRequest"
  "schemaAccepts acceptAll firstRequest" "schemaAccepts acceptAll changedRequest"
  "schemaAccepts acceptAll otherSessionRequest" "schemaAccepts acceptAll paddedRequest"
  "the (body_studyInstanceUID firstRequest) = ''study1''"
  "the (body_sessionId firstRequest) = ''s1''"
  "the (body_state firstRequest) = ''zoom1''"
  "body_autoSaved firstRequest = None"
  "the (body_studyInstanceUID changedRequest) = ''study1''"
  "the (body_sessionId changedRequest) = ''s1''"
  "the (body_state changedRequest) = ''zoom2''"
  "body_autoSaved changedRequest = None"
  "the (body_studyInstanceUID otherSessionRequest) = ''study1''"
  "the (body_sessionId otherSessionRequest) = ''s2''"
  "the (body_state otherSessionRequest) = ''zoom1''"
  "body_autoSaved otherSessionRequest = None"
  "the (body_studyInstanceUID paddedRequest) = ''study1 ''"
  "the (body_sessionId paddedRequest) = '' s1''"
  "the (body_state paddedRequest) = ''zoom3''"
  "body_autoSaved paddedRequest = None"
  by (simp_all add: firstRequest_def changedRequest_def otherSessionRequest_def
      paddedRequest_def saveRequest_def saveStateValidation_def notEmpty_def
      schemaAccepts_def acceptAll_def trim_examples)

lemma elevenRequests_sessions:
  "map (fst \<circ> snd) (map storedAs elevenRequests)
     = [''s1'', ''s2'', ''s3'', ''s4'', ''s5'', ''s6'', ''s7'', ''s8'', ''s9'', ''s10'', ''s11'']"
  by code_simp

lemma elevenRequests_facts:
  "sorted_wrt (<) (map fst elevenRequests)"
  "distinct (map (fst \<circ> snd) (map storedAs elevenRequests))"
  "\<forall>r \<in> set elevenRequests. fst (snd (storedAs r)) \<noteq> []"
  "length elevenRequests = 11"
proof -
  show "sorted_wrt (<) (map fst elevenRequests)" "length elevenRequests = 11"
    by (simp_all add: elevenRequests_def)
  show "distinct (map (fst \<circ> snd) (map storedAs elevenRequests))"
    unfolding elevenRequests_sessions by simp
  have "[] \<notin> set (map (fst \<circ> snd) (map storedAs elevenRequests))"
    unfolding elevenRequests_sessions by simp
  then show "\<forall>r \<in> set elevenRequests. fst (snd (storedAs r)) \<noteq> []"
    by (auto simp: image_iff)
qed

lemma emptyDb_facts:
  "wellFormedDb emptyDb" "statesOf ''userA'' ''study1'' emptyDb = []"
  "findOneState ''userA'' ''study1'' ''s1'' emptyDb = None"
  by (simp_all add: emptyDb_def wellFormedDb_def statesOf_def findOneState_def)

theorem save_versions_and_retention_witness:
  "findOneState ''userA'' ''study1'' ''s1'' storedDb = Some firstState
   \<and> version firstState = 1
   \<and> vres_version (fst (saveRoute 200 acceptAll None ''userA'' changedRequest storedDb))
       = Some 2
   \<and> vres_stateId (fst (saveRoute 200 acceptAll None ''userA'' changedRequest storedDb))
       = Some (vs_id firstState)
   \<and> map version (states (snd (saveRoute 200 acceptAll None ''userA'' changedRequest storedDb)))
       = [2]
   \<and> map version (states (snd (saveRoute 200 acceptAll None ''userA'' paddedRequest storedDb)))
       = [2]
   \<and> vres_version
        (fst (saveRoute 200 acceptAll None ''userA'' firstRequest
                (snd (saveRoute 100 acceptAll None ''userA'' firstRequest emptyDb)))) = Some 2
   \<and> map version
        (states (snd (saveRoute 200 acceptAll None ''userA'' firstRequest
                        (snd (saveRoute 100 acceptAll None ''userA'' firstRequest emptyDb)))))
       = [2]
   \<and> findOneState ''userA'' ''study1'' ''s2'' storedDb = None
   \<and> vres_version (fst (saveRoute 200 acceptAll None ''userA'' otherSessionRequest storedDb))
       = Some 1
   \<and> map vs_sessionId
        (states (snd (saveRoute 200 acceptAll None ''userA'' otherSessionRequest storedDb)))
       = [''s1'', ''s2'']
   \<and> map (fst \<circ> snd)
        (map stateSummary
           (statesOf ''userA'' ''study1''
              (saveSessions ''userA'' ''study1'' elevenRequests emptyDb)))
       = [''s2'', ''s3'', ''s4'', ''s5'', ''s6'', ''s7'', ''s8'', ''s9'', ''s10'', ''s11'']"
proof -
  have n: "trim ''study1'' \<noteq> []" by (simp add: trim_examples)
  have small: "length (statesOf ''userA'' ''study1'' storedDb) \<le> 10"
    "length (statesOf ''userA'' ''study1'' storedDb) < 10"
    "length (statesOf ''userA'' ''study1 '' storedDb) \<le> 10"
    "length (statesOf ''userA'' ''study1'' emptyDb) < 10"
    by (simp_all add: storedDb_facts emptyDb_facts)
  note t1 = save_versions_and_retention [where body = changedRequest and validators = acceptAll
      and u = "''userA''" and db = storedDb and stored = firstState and now = 200
      and st = "''study1''" and reqs = elevenRequests and body' = changedRequest]
  note t2 = save_versions_and_retention [where body = otherSessionRequest
      and validators = acceptAll and u = "''userA''" and db = storedDb and stored = firstState
      and now = 200 and st = "''study1''" and reqs = "[]" and body' = otherSessionRequest]
  note t3 = save_versions_and_retention [where body = firstRequest and validators = acceptAll
      and u = "''userA''" and db = emptyDb and stored = firstState and now = 100
      and now' = 200 and st = "''study1''" and reqs = elevenRequests and body' = firstRequest]
  note t4 = save_versions_and_retention [where body = paddedRequest and validators = acceptAll
      and u = "''userA''" and db = storedDb and stored = firstState and now = 200
      and st = "''study1''" and reqs = "[]" and body' = paddedRequest]
  have r1: "saveRoute 200 acceptAll None ''userA'' changedRequest storedDb =
     (okResponse (firstState \<lparr> vs_state := ''zoom2'', autoSaved := False,
                                version := version firstState + 1, updatedAt := 200 \<rparr>),
      storedDb \<lparr> states := map (\<lambda>d. if vs_id d = vs_id firstState
            then firstState \<lparr> vs_state := ''zoom2'', autoSaved := False,
                                version := version firstState + 1, updatedAt := 200 \<rparr>
            else d) (states storedDb) \<rparr>)"
    using t1 [THEN conjunct1] small by (simp add: request_facts storedDb_facts Let_def)
  have r4: "saveRoute 200 acceptAll None ''userA'' paddedRequest storedDb =
     (okResponse (firstState \<lparr> vs_state := ''zoom3'', autoSaved := False,
                                version := version firstState + 1, updatedAt := 200 \<rparr>),
      storedDb \<lparr> states := map (\<lambda>d. if vs_id d = vs_id firstState
            then firstState \<lparr> vs_state := ''zoom3'', autoSaved := False,
                                version := version firstState + 1, updatedAt := 200 \<rparr>
            else d) (states storedDb) \<rparr>)"
    using t4 [THEN conjunct1] small by (simp add: request_facts storedDb_facts Let_def)
  have r2: "saveRoute 200 acceptAll None ''userA'' otherSessionRequest storedDb =
     (okResponse (createdState 200 ''userA'' ''study1'' ''s2'' ''zoom1'' False storedDb),
      storedDb \<lparr> states := states storedDb
                    @ [createdState 200 ''userA'' ''study1'' ''s2'' ''zoom1'' False storedDb],
                 nextId := nextId storedDb + 1 \<rparr>)"
    using t2 [THEN conjunct2, THEN conjunct1] small
    by (simp add: request_facts storedDb_facts Let_def)
  have r3: "map stateSummary
           (statesOf ''userA'' ''study1''
              (saveSessions ''userA'' ''study1'' elevenRequests emptyDb))
          = drop (length elevenRequests - 10) (map storedAs elevenRequests)"
    using t3 [THEN conjunct2, THEN conjunct2, THEN conjunct2] n elevenRequests_facts
      emptyDb_facts
    by simp
  have r5: "saveRoute 200 acceptAll None ''userA'' firstRequest
              (snd (saveRoute 100 acceptAll None ''userA'' firstRequest emptyDb)) =
     (okResponse ((createdState 100 ''userA'' ''study1'' ''s1'' ''zoom1'' False emptyDb)
                    \<lparr> vs_state := ''zoom1'', autoSaved := False, version := 2,
                      updatedAt := 200 \<rparr>),
      emptyDb \<lparr> states := states emptyDb
                  @ [(createdState 100 ''userA'' ''study1'' ''s1'' ''zoom1'' False emptyDb)
                       \<lparr> vs_state := ''zoom1'', autoSaved := False, version := 2,
                         updatedAt := 200 \<rparr>],
                nextId := nextId emptyDb + 1 \<rparr>)"
    using t3 [THEN conjunct2, THEN conjunct2, THEN conjunct1] small
    by (simp add: request_facts emptyDb_facts Let_def)
  have sessions: "map (fst \<circ> snd) (drop (length elevenRequests - 10) (map storedAs elevenRequests))
       = [''s2'', ''s3'', ''s4'', ''s5'', ''s6'', ''s7'', ''s8'', ''s9'', ''s10'', ''s11'']"
    unfolding drop_map [symmetric] elevenRequests_sessions
    by (simp add: elevenRequests_facts)
  show ?thesis
    unfolding r1 r2 r3 r4 r5 sessions
    by (simp add: storedDb_facts okResponse_def createdState_def trim_examples)
       (simp add: storedDb_def firstState_def emptyDb_def)
qed

subsection \<open>Auto-save\<close>

lemma autoSave_missing:
  "\<not> fieldsPresent body \<Longrightarrow> autoSaveRoute now failure u body db = (errorResponse 400, db)"
  by (auto simp: autoSaveRoute_def fieldsPresent_def)

lemma autoSave_fails_before:
  "fieldsPresent body \<Longrightarrow> autoSaveRoute now (Some UpsertFails) u body db = (softFailure, db)"
  by (auto simp: autoSaveRoute_def fieldsPresent_def)

lemma autoSave_fails_after:
  "fieldsPresent body \<Longrightarrow>
   autoSaveRoute now (Some FailsAfterUpsert) u body db
     = (softFailure, snd (autoSaveRoute now None u body db))"
  by (auto simp: autoSaveRoute_def fieldsPresent_def split: prod.splits)

lemma autoSave_update:
  assumes "fieldsPresent body"
    and "findOneState u (the (body_studyInstanceUID body)) (the (body_sessionId body)) db
           = Some stored"
  shows "autoSaveRoute now None u body db =
     (let updated = stored \<lparr> vs_state := the (body_state body), autoSaved := True,
                              version := version stored + 1, updatedAt := now \<rparr>
      in (autoSaveOk updated,
          db \<lparr> states := map (\<lambda>d. if vs_id d = vs_id stored then updated else d)
                             (states db) \<rparr>))"
  using assms
  by (auto simp: autoSaveRoute_def fieldsPresent_def findOneAndUpdateUpsert_def autoSaveOk_def
      Let_def)

lemma autoSave_insert:
  assumes "fieldsPresent body"
    and "findOneState u (the (body_studyInstanceUID body)) (the (body_sessionId body)) db
           = None"
  shows "autoSaveRoute now None u body db =
     (let inserted = createdState now u (the (body_studyInstanceUID body))
                       (the (body_sessionId body)) (the (body_state body)) True db
      in (autoSaveOk inserted,
          db \<lparr> states := states db @ [inserted], nextId := nextId db + 1 \<rparr>))"
  using assms
  by (auto simp: autoSaveRoute_def fieldsPresent_def findOneAndUpdateUpsert_def autoSaveOk_def
      createdState_def Let_def)

lemma save_stateId:
  assumes "fieldsPresent body" and "schemaAccepts validators body"
  shows "vres_stateId (fst (saveRoute now validators None u body db))
         = Some (case findOneState u (the (body_studyInstanceUID body))
                        (the (body_sessionId body)) db of
                   Some stored \<Rightarrow> vs_id stored
                 | None \<Rightarrow> nextId db)"
proof (cases "findOneState u (the (body_studyInstanceUID body)) (the (body_sessionId body)) db")
  case None
  from assms(1) have "saveStateValidation body"
    by (simp add: fieldsPresent_def saveStateValidation_def)
  from saveRoute_new [OF this assms(2) None, of now] show ?thesis
    by (simp add: None okResponse_def createdState_def Let_def)
next
  case (Some stored)
  from assms(1) have "saveStateValidation body"
    by (simp add: fieldsPresent_def saveStateValidation_def)
  from saveRoute_existing [OF this assms(2) Some, of now] show ?thesis
    by (simp add: Some okResponse_def Let_def)
qed

lemma save_rejected:
  assumes "fieldsPresent body" and "\<not> schemaAccepts validators body"
  shows "saveRoute now validators None u body db = (errorResponse 500, db)"
proof (cases "findOneState u (the (body_studyInstanceUID body)) (the (body_sessionId body)) db")
  case None
  from assms(2) have "\<not> schemaValidation validators
     (newViewerState u (the (body_studyInstanceUID body)) (the (body_sessionId body))
        (the (body_state body))
        (case body_autoSaved body of Some b \<Rightarrow> b | None \<Rightarrow> False) db)"
    by (simp add: schemaValidation_def schemaAccepts_def newViewerState_def)
  with assms(1) None show ?thesis
    by (simp add: saveRoute_def fieldsPresent_def saveStateValidation_def caught_def Let_def)
next
  case (Some stored)
  then have "vs_studyInstanceUID stored = trim (the (body_studyInstanceUID body))"
    "vs_sessionId stored = trim (the (body_sessionId body))"
    by (auto dest: findOneState_Some)
  with assms(2) have "\<not> schemaValidation validators
     (stored \<lparr> vs_state := the (body_state body),
               autoSaved := (case body_autoSaved body of Some b \<Rightarrow> b | None \<Rightarrow> False) \<rparr>)"
    by (simp add: schemaValidation_def schemaAccepts_def)
  with assms(1) Some show ?thesis
    by (simp add: saveRoute_def fieldsPresent_def saveStateValidation_def caught_def Let_def)
qed

text \<open>
  C7. The auto-save answers 400, storing nothing, exactly when a required field is
  missing, and 200 otherwise. With the fields present and no failure, the state of the
  user, study and session of the request is updated in its place (new state,
  auto-saved, version one higher) or, when there is none, inserted: where the save
  route accepts the request, the document of the answer is the one that the save route
  answers. A request whose document the schema rejects makes the save route answer
  500, while the auto-save stores it and answers success. Whatever raises inside the
  handler, the answer has status 200 and success false: nothing is stored when the
  database call raises before it writes, and the upserted document stays stored when
  a later step raises.
\<close>

theorem auto_save_upsert_and_soft_failure:
  "(\<not> fieldsPresent body \<longrightarrow> autoSaveRoute now failure u body db = (errorResponse 400, db))
   \<and> (fieldsPresent body \<longrightarrow>
        autoSaveRoute now None u body db =
            (case findOneState u (the (body_studyInstanceUID body))
                    (the (body_sessionId body)) db of
               Some stored \<Rightarrow>
                 (let updated = stored \<lparr> vs_state := the (body_state body), autoSaved := True,
                                          version := version stored + 1, updatedAt := now \<rparr>
                  in (autoSaveOk updated,
                      db \<lparr> states := map (\<lambda>d. if vs_id d = vs_id stored then updated else d)
                                         (states db) \<rparr>))
             | None \<Rightarrow>
                 (let inserted = createdState now u (the (body_studyInstanceUID body))
                                   (the (body_sessionId body)) (the (body_state body)) True db
                  in (autoSaveOk inserted,
                      db \<lparr> states := states db @ [inserted], nextId := nextId db + 1 \<rparr>)))
        \<and> autoSaveRoute now (Some UpsertFails) u body db = (softFailure, db)
        \<and> autoSaveRoute now (Some FailsAfterUpsert) u body db
            = (softFailure, snd (autoSaveRoute now None u body db))
        \<and> (schemaAccepts validators body \<longrightarrow>
             vres_stateId (fst (autoSaveRoute now None u body db))
               = vres_stateId (fst (saveRoute now validators None u body db)))
        \<and> (\<not> schemaAccepts validators body \<longrightarrow>
             saveRoute now validators None u body db = (errorResponse 500, db)
             \<and> vres_success (fst (autoSaveRoute now None u body db)) = Some True))
   \<and> (vres_status (fst (autoSaveRoute now failure u body db)) = 400 \<longleftrightarrow> \<not> fieldsPresent body)
   \<and> vres_status (fst (autoSaveRoute now failure u body db)) \<in> {200, 400}
   \<and> (fieldsPresent body \<and> failure \<noteq> None
        \<longrightarrow> fst (autoSaveRoute now failure u body db) = softFailure)"
proof -
  have missing: "\<not> fieldsPresent body \<Longrightarrow>
                   autoSaveRoute now failure u body db = (errorResponse 400, db)"
    by (rule autoSave_missing)
  have upsert: "autoSaveRoute now None u body db =
            (case findOneState u (the (body_studyInstanceUID body))
                    (the (body_sessionId body)) db of
               Some stored \<Rightarrow>
                 (let updated = stored \<lparr> vs_state := the (body_state body), autoSaved := True,
                                          version := version stored + 1, updatedAt := now \<rparr>
                  in (autoSaveOk updated,
                      db \<lparr> states := map (\<lambda>d. if vs_id d = vs_id stored then updated else d)
                                         (states db) \<rparr>))
             | None \<Rightarrow>
                 (let inserted = createdState now u (the (body_studyInstanceUID body))
                                   (the (body_sessionId body)) (the (body_state body)) True db
                  in (autoSaveOk inserted,
                      db \<lparr> states := states db @ [inserted], nextId := nextId db + 1 \<rparr>)))"
    if "fieldsPresent body"
    using that autoSave_update [of body u db _ now] autoSave_insert [of body u db now]
    by (cases "findOneState u (the (body_studyInstanceUID body)) (the (body_sessionId body)) db")
       simp_all
  have soft: "fst (autoSaveRoute now failure u body db) = softFailure"
    if "fieldsPresent body" "failure \<noteq> None"
  proof -
    from that(2) obtain f where f: "failure = Some f" by auto
    show ?thesis
      using that(1) unfolding f
      by (cases f) (simp_all add: autoSave_fails_before autoSave_fails_after)
  qed
  have status: "vres_status (fst (autoSaveRoute now failure u body db)) = 200"
    if "fieldsPresent body"
  proof (cases "failure = None")
    case True
    with that show ?thesis
      by (simp add: upsert autoSaveOk_def Let_def split: option.splits)
  next
    case False
    with that show ?thesis by (simp add: soft softFailure_def)
  qed
  have same: "vres_stateId (fst (autoSaveRoute now None u body db))
               = vres_stateId (fst (saveRoute now validators None u body db))"
    if "fieldsPresent body" "schemaAccepts validators body"
    using that
    by (simp add: upsert save_stateId autoSaveOk_def createdState_def Let_def
        split: option.splits)
  have ok: "vres_success (fst (autoSaveRoute now None u body db)) = Some True"
    if "fieldsPresent body"
    using that by (simp add: upsert autoSaveOk_def Let_def split: option.splits)
  have s400: "vres_status (fst (autoSaveRoute now failure u body db)) = 400
                \<longleftrightarrow> \<not> fieldsPresent body"
    using missing status by (cases "fieldsPresent body") (simp_all add: errorResponse_def)
  have range: "vres_status (fst (autoSaveRoute now failure u body db)) \<in> {200, 400}"
    using missing status by (cases "fieldsPresent body") (simp_all add: errorResponse_def)
  show ?thesis
    using missing upsert same ok s400 range soft
      autoSave_fails_before [of body now u db] autoSave_fails_after [of body now u db]
      save_rejected [of body validators now u db]
    by blast
qed

theorem auto_save_witness:
  "fieldsPresent changedRequest
   \<and> autoSaveRoute 200 (Some UpsertFails) ''userA'' changedRequest storedDb
       = (softFailure, storedDb)
   \<and> fst (autoSaveRoute 200 (Some FailsAfterUpsert) ''userA'' changedRequest storedDb)
       = softFailure
   \<and> map version
        (states (snd (autoSaveRoute 200 (Some FailsAfterUpsert) ''userA'' changedRequest
                        storedDb))) = [2]
   \<and> vres_status softFailure = 200
   \<and> vres_version (fst (autoSaveRoute 200 None ''userA'' changedRequest storedDb)) = Some 2
   \<and> map autoSaved (states (snd (autoSaveRoute 200 None ''userA'' changedRequest storedDb)))
       = [True]
   \<and> vres_stateId (fst (autoSaveRoute 200 None ''userA'' changedRequest storedDb))
       = vres_stateId (fst (saveRoute 200 acceptAll None ''userA'' changedRequest storedDb))
   \<and> \<not> fieldsPresent missingRequest
   \<and> vres_status (fst (autoSaveRoute 200 (Some UpsertFails) ''userA'' missingRequest storedDb))
       = 400
   \<and> saveRoute 200 rejectAll None ''userA'' changedRequest storedDb = (errorResponse 500, storedDb)
   \<and> vres_success (fst (autoSaveRoute 200 None ''userA'' changedRequest storedDb)) = Some True"
proof -
  have p: "fieldsPresent changedRequest"
    by (simp add: fieldsPresent_def changedRequest_def saveRequest_def notEmpty_def)
  have m: "\<not> fieldsPresent missingRequest"
    by (simp add: fieldsPresent_def missingRequest_def notEmpty_def)
  have a: "schemaAccepts acceptAll changedRequest"
    "\<not> schemaAccepts rejectAll changedRequest"
    by (simp add: request_facts) (simp add: schemaAccepts_def rejectAll_def)
  note t1 = auto_save_upsert_and_soft_failure [where body = changedRequest and now = 200
      and u = "''userA''" and db = storedDb and validators = acceptAll
      and failure = "Some FailsAfterUpsert"]
  note t2 = auto_save_upsert_and_soft_failure [where body = changedRequest and now = 200
      and u = "''userA''" and db = storedDb and validators = rejectAll and failure = None]
  note t3 = auto_save_upsert_and_soft_failure [where body = missingRequest and now = 200
      and u = "''userA''" and db = storedDb and validators = acceptAll
      and failure = "Some UpsertFails"]
  have r1: "autoSaveRoute 200 None ''userA'' changedRequest storedDb =
      (autoSaveOk (firstState \<lparr> vs_state := ''zoom2'', autoSaved := True,
                                 version := version firstState + 1, updatedAt := 200 \<rparr>),
       storedDb \<lparr> states := map (\<lambda>d. if vs_id d = vs_id firstState
            then firstState \<lparr> vs_state := ''zoom2'', autoSaved := True,
                                version := version firstState + 1, updatedAt := 200 \<rparr>
            else d) (states storedDb) \<rparr>)"
    using t1 p by (simp add: request_facts storedDb_facts Let_def)
  have r2: "autoSaveRoute 200 (Some UpsertFails) ''userA'' changedRequest storedDb
              = (softFailure, storedDb)"
    using t1 p by blast
  have r2': "autoSaveRoute 200 (Some FailsAfterUpsert) ''userA'' changedRequest storedDb
              = (softFailure, snd (autoSaveRoute 200 None ''userA'' changedRequest storedDb))"
    using t1 p by blast
  have r3: "vres_stateId (fst (autoSaveRoute 200 None ''userA'' changedRequest storedDb))
       = vres_stateId (fst (saveRoute 200 acceptAll None ''userA'' changedRequest storedDb))"
    using t1 p a by blast
  have r4: "saveRoute 200 rejectAll None ''userA'' changedRequest storedDb
              = (errorResponse 500, storedDb)"
    "vres_success (fst (autoSaveRoute 200 None ''userA'' changedRequest storedDb)) = Some True"
    using t2 p a by blast+
  have r5: "vres_status (fst (autoSaveRoute 200 (Some UpsertFails) ''userA'' missingRequest
                                storedDb)) = 400"
    using t3 m by blast
  have r6: "vres_version (fst (autoSaveRoute 200 None ''userA'' changedRequest storedDb)) = Some 2"
    "map autoSaved (states (snd (autoSaveRoute 200 None ''userA'' changedRequest storedDb)))
       = [True]"
    "map version (states (snd (autoSaveRoute 200 None ''userA'' changedRequest storedDb)))
       = [2]"
    unfolding r1 by (simp_all add: autoSaveOk_def storedDb_def firstState_def)
  show ?thesis
    using p m r2 r3 r4 r5 r6 by (simp add: r2' softFailure_def)
qed

end
